theory Spec2Isabelle
  imports Complex_Main "HOL-Library.Sublist"
begin

section \<open>The tokenizer of args.go: munchArgs and rawArgsMap\<close>

text \<open>
  Go strings are byte sequences, as HOL's \<open>string\<close> is. \<open>strings.HasPrefix(s, p)\<close> is the
  prefix order; a slice expression \<open>s[lo:hi]\<close> with \<open>lo \<le> hi \<le> len(s)\<close> is
  \<open>take (hi - lo) (drop lo s)\<close>, and \<open>s[lo:]\<close> is \<open>drop lo s\<close>. Every slice expression of
  the tokenizer is in range (it follows a prefix test or a loop bound), so none panics.
\<close>

definition HasPrefix :: "string \<Rightarrow> string \<Rightarrow> bool" where
  "HasPrefix s p = prefix p s"

definition substr :: "'a list \<Rightarrow> nat \<Rightarrow> nat \<Rightarrow> 'a list" where
  "substr s lo hi = take (hi - lo) (drop lo s)"

text \<open>
  \<open>map[string][]string\<close>: a partial map. Indexing a Go map at a missing key gives the zero
  value, here the nil slice, which \<open>append\<close> and \<open>len\<close> treat as the empty one.
\<close>

type_synonym rawmap = "string \<rightharpoonup> string list"

definition valuesAt :: "rawmap \<Rightarrow> string \<Rightarrow> string list" where
  "valuesAt m key = (case m key of None \<Rightarrow> [] | Some vals \<Rightarrow> vals)"

text \<open>
  \<open>munchArgs\<close>: the loop \<open>for len(args) > 0\<close> moves tokens to \<open>result\<close> until one starts
  with \<open>--\<close>.
\<close>

fun munchLoop :: "string list \<Rightarrow> string list \<Rightarrow> string list" where
  "munchLoop result [] = result"
| "munchLoop result (a # args) =
     (if \<not> HasPrefix a ''--'' then munchLoop (result @ [a]) args else result)"

definition munchArgs :: "string list \<Rightarrow> string list" where
  "munchArgs args = munchLoop [] args"

text \<open>
  The inner loop of the cluster branch:
  \<open>for i := 2; i < len(args[0]); i++ { key := args[0][i-1 : i]; result[key] = []string{} }\<close>.
\<close>

function clusterLoop :: "string \<Rightarrow> nat \<Rightarrow> rawmap \<Rightarrow> rawmap" where
  "clusterLoop tok i result =
     (if i < length tok then clusterLoop tok (i + 1) (result(substr tok (i - 1) i \<mapsto> []))
      else result)"
  by pat_completeness auto
termination
  by (relation "measure (\<lambda>(tok, i, result). length tok - i)") auto

declare clusterLoop.simps [simp del]

text \<open>
  One iteration of the loop of \<open>rawArgsMap\<close>, on a non-empty \<open>args\<close>: the new \<open>result\<close> and
  the new \<open>args\<close>. The source has no final \<open>else\<close>: a head token that starts with neither
  \<open>--\<close> nor \<open>-\<close> leaves both variables as they are.
\<close>

definition rawArgsBody :: "rawmap \<Rightarrow> string list \<Rightarrow> rawmap \<times> string list" where
  "rawArgsBody result args =
     (if HasPrefix (hd args) ''--'' then
        (let key = drop 2 (hd args);
             args1 = tl args;
             vals = munchArgs args1
         in (result(key \<mapsto> valuesAt result key @ vals), drop (length vals) args1))
      else if HasPrefix (hd args) ''-'' then
        (if length (hd args) > 2 then
           (clusterLoop (hd args) 2 result, tl args)
         else
           (let key = drop 1 (hd args);
                args1 = tl args;
                vals = munchArgs args1
            in (result(key \<mapsto> valuesAt result key @ vals), drop (length vals) args1)))
      else (result, args))"

text \<open>
  The loop \<open>for len(args) > 0\<close> itself. It has no bound, so it is a partial function: the
  value \<open>None\<close> means that the loop does not return.
\<close>

partial_function (option) rawArgsLoop :: "rawmap \<Rightarrow> string list \<Rightarrow> rawmap option" where
  "rawArgsLoop result args =
     (if args = [] then Some result
      else rawArgsLoop (fst (rawArgsBody result args)) (snd (rawArgsBody result args)))"

text \<open>\<open>rawArgsMap\<close> starts the loop on a fresh map; its error result is always nil.\<close>

definition rawArgsMap :: "string list \<Rightarrow> rawmap option" where
  "rawArgsMap args = rawArgsLoop Map.empty args"

text \<open>
  The states the loop of \<open>rawArgsMap args0\<close> passes through: the pair of \<open>result\<close> and
  \<open>args\<close> at the loop head.
\<close>

inductive reachable :: "string list \<Rightarrow> rawmap \<times> string list \<Rightarrow> bool" for args0 where
  start: "reachable args0 (Map.empty, args0)"
| iter: "reachable args0 (result, args) \<Longrightarrow> args \<noteq> [] \<Longrightarrow>
         reachable args0 (rawArgsBody result args)"

text \<open>A loop head at which no branch of the body applies.\<close>

definition stuck :: "string list \<Rightarrow> bool" where
  "stuck args =
     (args \<noteq> [] \<and> \<not> HasPrefix (hd args) ''--'' \<and> \<not> HasPrefix (hd args) ''-'')"

text \<open>
  A map in which every key is a mere switch (it has no values), and the invariant of the
  loop head built on it: \<open>result\<close> holds a value only once the loop is past a flag that
  munches, and then the next token, if any, starts with \<open>--\<close>.
\<close>

definition onlySwitches :: "rawmap \<Rightarrow> bool" where
  "onlySwitches result = (\<forall>key vals. result key = Some vals \<longrightarrow> vals = [])"

definition loopInv :: "rawmap \<Rightarrow> string list \<Rightarrow> bool" where
  "loopInv result args = (args = [] \<or> HasPrefix (hd args) ''--'' \<or> onlySwitches result)"

text \<open>A token that the loop body takes for a cluster of switches.\<close>

definition isCluster :: "string \<Rightarrow> bool" where
  "isCluster tok = (\<not> HasPrefix tok ''--'' \<and> HasPrefix tok ''-'' \<and> 2 < length tok)"

section \<open>Types, values and errors\<close>

text \<open>
  What \<open>reflect\<close> reports of a Go type, as far as args.go asks: the kind, the bit size of a
  numeric kind (\<open>Bits()\<close>; \<open>int\<close> and \<open>uint\<close> have the platform's), the element type of a
  pointer, slice or map, and the key type of a map. \<open>TOther\<close> stands for every kind that no
  \<open>case\<close> of the source names (struct, array, chan, func, complex, uintptr, ...). The types
  are the predeclared ones: a defined type such as \<open>type T string\<close>, on which \<open>Set\<close> of a
  plain \<open>string\<close> panics, is not among them.
\<close>

datatype gotype =
    TString
  | TBool
  | TInt nat
  | TUint nat
  | TFloat nat
  | TPtr gotype
  | TSlice gotype
  | TMap gotype gotype
  | TInterface
  | TOther

text \<open>
  Go values. \<open>'f\<close> is the type of floating-point values, left open. \<open>VNil\<close> is the nil
  pointer and the nil slice, \<open>VEmptyStruct\<close> the value \<open>struct{}{}\<close>, \<open>VOpaque\<close> a value of
  a type the parser never looks into.
\<close>

datatype 'f val =
    VString string
  | VBool bool
  | VInt int
  | VUint nat
  | VFloat 'f
  | VSlice "'f val list"
  | VPtr "'f val"
  | VNil
  | VEmptyStruct
  | VOpaque

text \<open>The zero value of a type: what \<open>reflect.New\<close> points at.\<close>

fun zeroValue :: "gotype \<Rightarrow> ('f::zero) val" where
  "zeroValue TString = VString ''''"
| "zeroValue TBool = VBool False"
| "zeroValue (TInt bits) = VInt 0"
| "zeroValue (TUint bits) = VUint 0"
| "zeroValue (TFloat bits) = VFloat 0"
| "zeroValue (TPtr elem) = VNil"
| "zeroValue (TSlice elem) = VNil"
| "zeroValue (TMap key elem) = VNil"
| "zeroValue TInterface = VNil"
| "zeroValue TOther = VOpaque"

text \<open>
  The functions of Go's standard library that args.go calls are not part of the repository;
  the embedding takes them as a parameter. \<open>ParseInt s base bitSize\<close>, \<open>ParseUint\<close> and
  \<open>ParseFloat s bitSize\<close> return the error of \<open>strconv\<close> or the number; \<open>ToLower\<close> is
  \<open>strings.ToLower\<close>.
\<close>

datatype NumError = ErrSyntax | ErrRange

record 'f stdlib =
  ParseInt :: "string \<Rightarrow> nat \<Rightarrow> nat \<Rightarrow> NumError + int"
  ParseUint :: "string \<Rightarrow> nat \<Rightarrow> nat \<Rightarrow> NumError + nat"
  ParseFloat :: "string \<Rightarrow> nat \<Rightarrow> NumError + 'f"
  ToLower :: "string \<Rightarrow> string"

text \<open>
  The errors of args.go, one constructor for each \<open>fmt.Errorf\<close> of the source:
  \<^item> \<open>OptionNotSet name\<close>: "args: option %s specified but not set";
  \<^item> \<open>OptionMoreThanOnce name\<close>: "args: option %s specified more than once";
  \<^item> \<open>Wrapped e\<close>: "args: %s" around another error;
  \<^item> \<open>Strconv e\<close>: the error returned by \<open>strconv\<close>;
  \<^item> \<open>BooleanHasParameter name\<close>: "args: boolean option %s has parameter";
  \<^item> \<open>RequiredNotSupplied name\<close>: "%s: required argument was not supplied: --%s"
    (the first argument is \<open>os.Args[0]\<close>);
  \<^item> \<open>UnsupportedType t\<close>: "args: unsupported type: %s";
  \<^item> \<open>UnsupportedSliceType\<close>: "args: unsupported slice type %s";
  \<^item> \<open>MapMoreThanOnce key\<close>: "args: option %q specified more than once";
  \<^item> \<open>InvalidMapElem elem\<close>: "args: invalid type for unmarshal: %s of %s";
  \<^item> \<open>NonPointerError\<close>: "args: non-pointer %s";
  \<^item> \<open>MapKeyNotString\<close>: "args: map key type must be string, not %s";
  \<^item> \<open>InvalidType\<close>: "args: invalid type for unmarshal: %s";
  \<^item> \<open>PanicNilMap\<close>: the panic of \<open>SetMapIndex\<close> on a nil map.
\<close>

datatype error =
    OptionNotSet string
  | OptionMoreThanOnce string
  | Wrapped error
  | Strconv NumError
  | BooleanHasParameter string
  | RequiredNotSupplied string
  | UnsupportedType gotype
  | UnsupportedSliceType
  | MapMoreThanOnce string
  | InvalidMapElem gotype
  | NonPointerError
  | MapKeyNotString
  | InvalidType
  | PanicNilMap

section \<open>checkArgLen and parseTagData\<close>

definition checkArgLen :: "string list \<Rightarrow> string \<Rightarrow> error option" where
  "checkArgLen data name =
     (if length data = 0 then Some (OptionNotSet name)
      else if length data > 1 then Some (OptionMoreThanOnce name)
      else None)"

record tagData =
  Description :: string
  Required :: bool
  ShortFlag :: string

text \<open>\<open>strings.Split(s, ",")\<close>: the pieces between the commas, one more than there are commas.\<close>

fun SplitComma :: "string \<Rightarrow> string list" where
  "SplitComma [] = [[]]"
| "SplitComma (c # s) =
     (if c = CHR '','' then [] # SplitComma s
      else (case SplitComma s of [] \<Rightarrow> [[c]] | p # ps \<Rightarrow> (c # p) # ps))"

text \<open>The loop \<open>for i := 1; i < len(parts); i++\<close> of \<open>parseTagData\<close>, over \<open>parts[1:]\<close>.\<close>

fun tagLoop :: "string list \<Rightarrow> tagData \<Rightarrow> tagData" where
  "tagLoop [] td = td"
| "tagLoop (part # parts) td =
     tagLoop parts
       (if HasPrefix part ''-'' \<and> length part = 2 then td\<lparr>ShortFlag := drop 1 part\<rparr>
        else if part = ''r'' then td\<lparr>Required := True\<rparr>
        else td)"

text \<open>The argument is \<open>tag.Get("args")\<close>, empty for a field without that tag.\<close>

definition parseTagData :: "string \<Rightarrow> tagData" where
  "parseTagData tag =
     (let td = \<lparr>Description = '''', Required = False, ShortFlag = ''''\<rparr>;
          parts = SplitComma tag;
          td1 = (if length parts > 0 then td\<lparr>Description := parts ! 0\<rparr> else td)
      in if length parts > 1 then tagLoop (drop 1 parts) td1 else td1)"

section \<open>fillSlice\<close>

text \<open>
  One of the loops \<open>for i, s := range args\<close> of \<open>fillSlice\<close>: each token is parsed and
  stored; the first token that does not parse ends the function with its error.
\<close>

fun fillLoop :: "(string \<Rightarrow> NumError + 'f val) \<Rightarrow> string list \<Rightarrow> error + 'f val list" where
  "fillLoop conv [] = Inr []"
| "fillLoop conv (s # args) =
     (case conv s of
        Inl err \<Rightarrow> Inl (Wrapped (Strconv err))
      | Inr n \<Rightarrow> (case fillLoop conv args of Inl e \<Rightarrow> Inl e | Inr slice \<Rightarrow> Inr (n # slice)))"

text \<open>
  \<open>fillSlice(v, args)\<close>, with \<open>elem\<close> the element type of the slice \<open>v\<close>. The result is the
  error, if any, and the slice afterwards: \<open>v.Set(slice)\<close> is reached only when no element
  failed.
\<close>

definition fillSlice ::
  "'f stdlib \<Rightarrow> gotype \<Rightarrow> 'f val \<Rightarrow> string list \<Rightarrow> error option \<times> 'f val" where
  "fillSlice lib elem v args =
     (case (case elem of
              TString \<Rightarrow> Inr (map VString args)
            | TInt bits \<Rightarrow> fillLoop (\<lambda>s. map_sum id VInt (ParseInt lib s 0 bits)) args
            | TUint bits \<Rightarrow> fillLoop (\<lambda>s. map_sum id VUint (ParseUint lib s 0 bits)) args
            | TFloat bits \<Rightarrow> fillLoop (\<lambda>s. map_sum id VFloat (ParseFloat lib s bits)) args
            | _ \<Rightarrow> Inl UnsupportedSliceType) of
        Inl err \<Rightarrow> (Some err, v)
      | Inr slice \<Rightarrow> (None, VSlice slice))"

section \<open>parseStruct\<close>

text \<open>
  \<open>reflect.StructField\<close>, with \<open>Tag\<close> the value of the tag's key \<open>args\<close>. A struct value is
  the list of its fields, each the declaration (\<open>typ.Field(i)\<close>) with the current value
  (\<open>v.Field(i)\<close>).
\<close>

record StructField =
  Name :: string
  PkgPath :: string
  Anonymous :: bool
  Tag :: string
  Type :: gotype

type_synonym 'f struct = "(StructField \<times> 'f val) list"

text \<open>
  The \<open>switch ftype.Kind()\<close> of \<open>parseStruct\<close>, for the field \<open>field\<close> with the name
  \<open>name\<close>, the raw values \<open>data\<close> and the slot \<open>fval\<close> of type \<open>ftype\<close>: the error, if
  any, and the slot afterwards.
\<close>

definition assign ::
  "'f stdlib \<Rightarrow> StructField \<Rightarrow> string \<Rightarrow> gotype \<Rightarrow> string list \<Rightarrow> 'f val \<Rightarrow>
   error option \<times> 'f val" where
  "assign lib field name ftype data fval =
     (case ftype of
        TString \<Rightarrow>
          (case checkArgLen data name of
             Some err \<Rightarrow> (Some (Wrapped err), fval)
           | None \<Rightarrow> (None, VString (data ! 0)))
      | TBool \<Rightarrow>
          (if length data \<noteq> 0 then (Some (BooleanHasParameter name), fval)
           else (None, VBool True))
      | TInt bits \<Rightarrow>
          (case checkArgLen data name of
             Some err \<Rightarrow> (Some (Wrapped err), fval)
           | None \<Rightarrow>
               (case ParseInt lib (data ! 0) 0 bits of
                  Inl err \<Rightarrow> (Some (Wrapped (Strconv err)), fval)
                | Inr n \<Rightarrow> (None, VInt n)))
      | TUint bits \<Rightarrow>
          (case checkArgLen data name of
             Some err \<Rightarrow> (Some (Wrapped err), fval)
           | None \<Rightarrow>
               (case ParseUint lib (data ! 0) 0 bits of
                  Inl err \<Rightarrow> (Some (Wrapped (Strconv err)), fval)
                | Inr n \<Rightarrow> (None, VUint n)))
      | TFloat bits \<Rightarrow>
          (case checkArgLen data name of
             Some err \<Rightarrow> (Some (Wrapped err), fval)
           | None \<Rightarrow>
               (case ParseFloat lib (data ! 0) bits of
                  Inl err \<Rightarrow> (Some (Wrapped (Strconv err)), fval)
                | Inr n \<Rightarrow> (None, VFloat n)))
      | TSlice elem \<Rightarrow> fillSlice lib elem fval data
      | _ \<Rightarrow> (Some (UnsupportedType (Type field)), fval))"

text \<open>
  The lookup of a field's raw values: \<open>rawData[name]\<close> and, when that key is missing,
  \<open>rawData[tagData.ShortFlag]\<close>.
\<close>

definition findData :: "rawmap \<Rightarrow> string \<Rightarrow> tagData \<Rightarrow> string list option" where
  "findData rawData name td =
     (case rawData name of Some data \<Rightarrow> Some data | None \<Rightarrow> rawData (ShortFlag td))"

text \<open>
  What the lines before the switch leave for it to work on: the type \<open>ftype\<close>, the slot,
  and how the slot's value ends up in the field. For a pointer field the field is first
  set to a fresh pointer (\<open>fval.Set(reflect.New(fval.Type().Elem()))\<close>) and the slot is
  what it points at, a zero value of the element type; any other field is its own slot.
\<close>

definition target ::
  "StructField \<Rightarrow> ('f::zero) val \<Rightarrow> gotype \<times> 'f val \<times> ('f val \<Rightarrow> 'f val)" where
  "target field fval =
     (case Type field of
        TPtr elem \<Rightarrow> (elem, zeroValue elem, VPtr)
      | ftype \<Rightarrow> (ftype, fval, \<lambda>x. x))"

text \<open>
  The body of the loop over the fields, for one field and its value: the error that ends
  \<open>parseStruct\<close>, if any, and the value of the field afterwards.
\<close>

definition parseField ::
  "('f::zero) stdlib \<Rightarrow> rawmap \<Rightarrow> StructField \<Rightarrow> 'f val \<Rightarrow> error option \<times> 'f val" where
  "parseField lib rawData field fval =
     (if PkgPath field \<noteq> '''' \<or> Anonymous field then (None, fval)
      else
        (let name = ToLower lib (Name field);
             td = parseTagData (Tag field)
         in case findData rawData name td of
              None \<Rightarrow>
                (if \<not> Required td then (None, fval)
                 else (Some (RequiredNotSupplied name), fval))
            | Some data \<Rightarrow>
                (case target field fval of
                   (ftype, slot, store) \<Rightarrow>
                     (case assign lib field name ftype data slot of
                        (err, x) \<Rightarrow> (err, store x)))))"

text \<open>The loop \<open>for i := 0; i < v.NumField(); i++\<close>, from the index \<open>i\<close> on.\<close>

function structLoop ::
  "('f::zero) stdlib \<Rightarrow> rawmap \<Rightarrow> nat \<Rightarrow> 'f struct \<Rightarrow> error option \<times> 'f struct" where
  "structLoop lib rawData i v =
     (if i < length v then
        (case parseField lib rawData (fst (v ! i)) (snd (v ! i)) of
           (Some err, fval) \<Rightarrow> (Some err, v[i := (fst (v ! i), fval)])
         | (None, fval) \<Rightarrow> structLoop lib rawData (i + 1) (v[i := (fst (v ! i), fval)]))
      else (None, v))"
  by pat_completeness auto
termination
  by (relation "measure (\<lambda>(lib, rawData, i, v). length v - i)") auto

declare structLoop.simps [simp del]

text \<open>
  \<open>parseStruct\<close>: \<open>None\<close> when \<open>rawArgsMap\<close> does not return, else the error, if any, and
  the struct as the call leaves it.
\<close>

definition parseStruct ::
  "('f::zero) stdlib \<Rightarrow> 'f struct \<Rightarrow> string list \<Rightarrow> (error option \<times> 'f struct) option" where
  "parseStruct lib v args =
     (case rawArgsMap args of
        None \<Rightarrow> None
      | Some rawData \<Rightarrow> Some (structLoop lib rawData 0 v))"

section \<open>parseMap\<close>

text \<open>
  A map destination: \<open>None\<close> is the nil map, on which \<open>SetMapIndex\<close> panics.
\<close>

type_synonym 'f gomap = "(string \<rightharpoonup> 'f val) option"

definition SetMapIndex :: "'f gomap \<Rightarrow> string \<Rightarrow> 'f val \<Rightarrow> error + 'f gomap" where
  "SetMapIndex v key x = (case v of None \<Rightarrow> Inl PanicNilMap | Some m \<Rightarrow> Inr (Some (m(key \<mapsto> x))))"

text \<open>
  Go leaves the order in which \<open>range\<close> visits a map unspecified. The embedding takes the
  order as a parameter: \<open>entries\<close> is the sequence of pairs that \<open>range rawData\<close> yields,
  each key of the map once.
\<close>

definition rangeOf :: "rawmap \<Rightarrow> (string \<times> string list) list \<Rightarrow> bool" where
  "rangeOf rawData entries = (distinct (map fst entries) \<and> map_of entries = rawData)"

text \<open>The loop of the case \<open>reflect.String\<close>.\<close>

fun stringMapLoop :: "(string \<times> string list) list \<Rightarrow> 'f gomap \<Rightarrow> error option \<times> 'f gomap" where
  "stringMapLoop [] v = (None, v)"
| "stringMapLoop ((key, value) # entries) v =
     (case (if length value = 0 then SetMapIndex v key (VString '''')
            else if length value > 0 then SetMapIndex v key (VString (value ! 0))
            else Inr v) of
        Inl panic \<Rightarrow> (Some panic, v)
      | Inr v' \<Rightarrow>
          (if length value > 1 then (Some (MapMoreThanOnce key), v')
           else stringMapLoop entries v'))"

text \<open>
  The value that the case \<open>reflect.Interface\<close> stores for a key: \<open>struct{}{}\<close>, the
  \<open>int64\<close>, the \<open>float64\<close>, the string or the slice of all the raw strings.
\<close>

definition dynamicValue :: "'f stdlib \<Rightarrow> string list \<Rightarrow> 'f val" where
  "dynamicValue lib value =
     (if length value = 0 then VEmptyStruct
      else if length value = 1 then
        (let val = value ! 0
         in case ParseInt lib val 0 64 of
              Inr n \<Rightarrow> VInt n
            | Inl _ \<Rightarrow>
                (case ParseFloat lib val 64 of
                   Inr n \<Rightarrow> VFloat n
                 | Inl _ \<Rightarrow> VString val))
      else VSlice (map VString value))"

text \<open>The loop of the case \<open>reflect.Interface\<close>.\<close>

fun interfaceMapLoop ::
  "'f stdlib \<Rightarrow> (string \<times> string list) list \<Rightarrow> 'f gomap \<Rightarrow> error option \<times> 'f gomap" where
  "interfaceMapLoop lib [] v = (None, v)"
| "interfaceMapLoop lib ((key, value) # entries) v =
     (case SetMapIndex v key (dynamicValue lib value) of
        Inl panic \<Rightarrow> (Some panic, v)
      | Inr v' \<Rightarrow> interfaceMapLoop lib entries v')"

text \<open>
  \<open>parseMap\<close> for a map with the element type \<open>elem\<close>; \<open>order\<close> gives for the raw map the
  sequence its \<open>range\<close> yields. \<open>None\<close> when \<open>rawArgsMap\<close> does not return.
\<close>

definition parseMap ::
  "'f stdlib \<Rightarrow> (rawmap \<Rightarrow> (string \<times> string list) list) \<Rightarrow> gotype \<Rightarrow> 'f gomap \<Rightarrow> string list \<Rightarrow>
   (error option \<times> 'f gomap) option" where
  "parseMap lib order elem v args =
     (case rawArgsMap args of
        None \<Rightarrow> None
      | Some rawData \<Rightarrow>
          Some (case elem of
                  TString \<Rightarrow> stringMapLoop (order rawData) v
                | TInterface \<Rightarrow> interfaceMapLoop lib (order rawData) v
                | _ \<Rightarrow> (Some (InvalidMapElem elem), v)))"

section \<open>getType and parse\<close>

text \<open>
  The argument \<open>data\<close> of \<open>parse\<close>: a value that is no pointer, or a pointer to a struct,
  to a slice (with its element type), to a map (with its key and element types), or to
  anything else.
\<close>

datatype 'f data =
    NonPointer
  | PtrStruct "'f struct"
  | PtrSlice gotype "'f val"
  | PtrMap gotype gotype "'f gomap"
  | PtrOther

definition getType :: "'f data \<Rightarrow> error option" where
  "getType data =
     (case data of
        NonPointer \<Rightarrow> Some NonPointerError
      | PtrStruct v \<Rightarrow> None
      | PtrSlice elem v \<Rightarrow> None
      | PtrMap key elem v \<Rightarrow> (if key \<noteq> TString then Some MapKeyNotString else None)
      | PtrOther \<Rightarrow> Some InvalidType)"

text \<open>
  \<open>parse\<close>: \<open>None\<close> when the call does not return, else the error, if any, and the
  destination as the call leaves it.
\<close>

definition parse ::
  "('f::zero) stdlib \<Rightarrow> (rawmap \<Rightarrow> (string \<times> string list) list) \<Rightarrow> 'f data \<Rightarrow> string list \<Rightarrow>
   (error option \<times> 'f data) option" where
  "parse lib order data args =
     (case getType data of
        Some err \<Rightarrow> Some (Some err, data)
      | None \<Rightarrow>
          (case data of
             PtrStruct v \<Rightarrow> map_option (map_prod id PtrStruct) (parseStruct lib v args)
           | PtrSlice elem v \<Rightarrow> Some (map_prod id (PtrSlice elem) (fillSlice lib elem v args))
           | PtrMap key elem v \<Rightarrow>
               map_option (map_prod id (PtrMap key elem)) (parseMap lib order elem v args)
           | _ \<Rightarrow> Some (Some InvalidType, data)))"

section \<open>An instance of the library for examples\<close>

text \<open>
  To run the embedding on examples, an instance of the library parameter that reads plain
  decimal literals only: an optional sign and digits for \<open>ParseInt\<close>, digits for
  \<open>ParseUint\<close>, an optional sign, digits and an optional fraction for \<open>ParseFloat\<close> (with
  the rationals for the floating-point values), and the ASCII letters for \<open>ToLower\<close>. It
  answers as \<open>strconv\<close> does with base 0 on the texts of the examples below: the literals
  \<open>5\<close> and \<open>10.5\<close>, which have no leading zero and digits on both sides of the point, and
  \<open>abc\<close>, which is a syntax error for \<open>ParseInt\<close>.
\<close>

definition isDigit :: "char \<Rightarrow> bool" where
  "isDigit c = (48 \<le> (of_char c :: nat) \<and> (of_char c :: nat) \<le> 57)"

fun digits :: "string \<Rightarrow> nat \<Rightarrow> nat option" where
  "digits [] acc = Some acc"
| "digits (c # s) acc = (if isDigit c then digits s (10 * acc + (of_char c - 48)) else None)"

definition decimalUint :: "string \<Rightarrow> nat \<Rightarrow> nat \<Rightarrow> NumError + nat" where
  "decimalUint s base bitSize =
     (if s = [] then Inl ErrSyntax
      else case digits s 0 of
             None \<Rightarrow> Inl ErrSyntax
           | Some n \<Rightarrow> if n < 2 ^ bitSize then Inr n else Inl ErrRange)"

definition decimalInt :: "string \<Rightarrow> nat \<Rightarrow> nat \<Rightarrow> NumError + int" where
  "decimalInt s base bitSize =
     (let neg = (take 1 s = ''-'');
          s1 = (if take 1 s = ''-'' \<or> take 1 s = ''+'' then drop 1 s else s)
      in if s1 = [] then Inl ErrSyntax
         else case digits s1 0 of
                None \<Rightarrow> Inl ErrSyntax
              | Some n \<Rightarrow>
                  if neg then (if n \<le> 2 ^ (bitSize - 1) then Inr (- int n) else Inl ErrRange)
                  else (if n < 2 ^ (bitSize - 1) then Inr (int n) else Inl ErrRange))"

definition decimalFloat :: "string \<Rightarrow> nat \<Rightarrow> NumError + rat" where
  "decimalFloat s bitSize =
     (let neg = (take 1 s = ''-'');
          s1 = (if take 1 s = ''-'' \<or> take 1 s = ''+'' then drop 1 s else s);
          whole = takeWhile (\<lambda>c. c \<noteq> CHR ''.'') s1;
          frac = drop 1 (dropWhile (\<lambda>c. c \<noteq> CHR ''.'') s1)
      in if whole = [] \<or> (frac = [] \<and> whole \<noteq> s1) then Inl ErrSyntax
         else case digits (whole @ frac) 0 of
                None \<Rightarrow> Inl ErrSyntax
              | Some n \<Rightarrow>
                  Inr ((if neg then - 1 else 1) * (of_nat n / of_nat (10 ^ length frac))))"

definition asciiLower :: "string \<Rightarrow> string" where
  "asciiLower s =
     map (\<lambda>c. case map_of (zip ''ABCDEFGHIJKLMNOPQRSTUVWXYZ'' ''abcdefghijklmnopqrstuvwxyz'') c of
               Some l \<Rightarrow> l
             | None \<Rightarrow> c) s"

definition exampleLib :: "rat stdlib" where
  "exampleLib =
     \<lparr>ParseInt = decimalInt, ParseUint = decimalUint, ParseFloat = decimalFloat,
      ToLower = asciiLower\<rparr>"

section \<open>Properties of the tokenizer\<close>

lemma munchLoop_takeWhile:
  "munchLoop acc args = acc @ takeWhile (\<lambda>a. \<not> HasPrefix a ''--'') args"
  by (induction args arbitrary: acc) simp_all

lemma munchArgs_takeWhile: "munchArgs args = takeWhile (\<lambda>a. \<not> HasPrefix a ''--'') args"
  by (simp add: munchArgs_def munchLoop_takeWhile)

lemma drop_munchArgs:
  "drop (length (munchArgs args)) args = dropWhile (\<lambda>a. \<not> HasPrefix a ''--'') args"
  by (simp add: munchArgs_takeWhile dropWhile_eq_drop)

lemma munchArgs_all:
  "\<forall>v \<in> set vs. \<not> HasPrefix v ''--'' \<Longrightarrow> munchArgs vs = vs"
  by (simp add: munchArgs_takeWhile)

lemma after_munch:
  "drop (length (munchArgs args)) args = [] \<or>
   HasPrefix (hd (drop (length (munchArgs args)) args)) ''--''"
  unfolding drop_munchArgs
  using hd_dropWhile [of "\<lambda>a. \<not> HasPrefix a ''--''" args] by auto

lemma rawArgsLoop_Nil: "rawArgsLoop result [] = Some result"
  by (simp add: rawArgsLoop.simps)

lemma rawArgsLoop_step:
  "args \<noteq> [] \<Longrightarrow>
   rawArgsLoop result args =
     rawArgsLoop (fst (rawArgsBody result args)) (snd (rawArgsBody result args))"
  by (subst rawArgsLoop.simps) simp

lemma rawArgsLoop_Some_not_stuck:
  assumes "rawArgsLoop result args = Some y"
  shows "\<not> stuck args"
proof (rule rawArgsLoop.raw_induct [where P = "\<lambda>r a y. \<not> stuck a", OF _ assms])
  fix f r a z
  assume IH: "\<And>r' a' y'. f r' a' = Some y' \<Longrightarrow> \<not> stuck a'"
    and eq: "(if a = [] then Some r
              else f (fst (rawArgsBody r a)) (snd (rawArgsBody r a))) = Some z"
  show "\<not> stuck a"
  proof
    assume s: "stuck a"
    then have "rawArgsBody r a = (r, a)"
      by (simp add: stuck_def rawArgsBody_def)
    with eq s have "f r a = Some z"
      by (simp add: stuck_def)
    with IH s show False by blast
  qed
qed

lemma rawArgsLoop_stuck: "stuck args \<Longrightarrow> rawArgsLoop result args = None"
  using rawArgsLoop_Some_not_stuck [of result args] by (cases "rawArgsLoop result args") auto

lemma long_flag_body:
  "HasPrefix a ''--'' \<Longrightarrow>
   rawArgsBody result (a # args) =
     (result(drop 2 a \<mapsto> valuesAt result (drop 2 a) @ munchArgs args),
      drop (length (munchArgs args)) args)"
  by (simp add: rawArgsBody_def Let_def)

lemma short_flag_body:
  "\<not> HasPrefix a ''--'' \<Longrightarrow> HasPrefix a ''-'' \<Longrightarrow> \<not> 2 < length a \<Longrightarrow>
   rawArgsBody result (a # args) =
     (result(drop 1 a \<mapsto> valuesAt result (drop 1 a) @ munchArgs args),
      drop (length (munchArgs args)) args)"
  by (simp add: rawArgsBody_def Let_def)

lemma cluster_body:
  "\<not> HasPrefix a ''--'' \<Longrightarrow> HasPrefix a ''-'' \<Longrightarrow> 2 < length a \<Longrightarrow>
   rawArgsBody result (a # args) = (clusterLoop a 2 result, args)"
  by (simp add: rawArgsBody_def)

lemma HasPrefix_append [simp]: "HasPrefix (p @ s) p"
  by (simp add: HasPrefix_def)

lemma long_flag_run:
  assumes "\<forall>v \<in> set vs. \<not> HasPrefix v ''--''"
  shows "rawArgsMap ((''--'' @ k) # vs) = Some [k \<mapsto> vs]"
proof -
  have "rawArgsBody Map.empty ((''--'' @ k) # vs) = ([k \<mapsto> vs], [])"
    using assms by (simp add: long_flag_body munchArgs_all valuesAt_def HasPrefix_def)
  then show ?thesis
    by (simp add: rawArgsMap_def rawArgsLoop_step rawArgsLoop_Nil)
qed

lemma clusterLoop_step:
  "i < length tok \<Longrightarrow>
   clusterLoop tok i result = clusterLoop tok (i + 1) (result(substr tok (i - 1) i \<mapsto> []))"
  by (subst clusterLoop.simps) (simp only: if_True)

lemma clusterLoop_done: "\<not> i < length tok \<Longrightarrow> clusterLoop tok i result = result"
  by (subst clusterLoop.simps) (simp only: if_False)

lemma clusterLoop_onlySwitches:
  "onlySwitches result \<Longrightarrow> onlySwitches (clusterLoop tok i result)"
proof (induction tok i result rule: clusterLoop.induct)
  case (1 tok i result)
  show ?case
  proof (cases "i < length tok")
    case True
    have "onlySwitches (result(substr tok (i - 1) i \<mapsto> []))"
      using 1(2) by (simp add: onlySwitches_def)
    then show ?thesis
      unfolding clusterLoop_step [OF True] by (rule 1(1) [OF True])
  next
    case False
    show ?thesis
      unfolding clusterLoop_done [OF False] by (rule 1(2))
  qed
qed

lemma clusterLoop_dom:
  "result key \<noteq> None \<Longrightarrow> clusterLoop tok i result key \<noteq> None"
proof (induction tok i result rule: clusterLoop.induct)
  case (1 tok i result)
  show ?case
  proof (cases "i < length tok")
    case True
    have "(result(substr tok (i - 1) i \<mapsto> [])) key \<noteq> None"
      using 1(2) by simp
    then show ?thesis
      unfolding clusterLoop_step [OF True] by (rule 1(1) [OF True])
  next
    case False
    show ?thesis
      unfolding clusterLoop_done [OF False] by (rule 1(2))
  qed
qed

lemma body_cases [consumes 1, case_names long short cluster bare]:
  assumes "args \<noteq> []"
  obtains
    (long) "HasPrefix (hd args) ''--''"
      "rawArgsBody result args =
         (result(drop 2 (hd args) \<mapsto> valuesAt result (drop 2 (hd args)) @ munchArgs (tl args)),
          drop (length (munchArgs (tl args))) (tl args))"
  | (short) "\<not> HasPrefix (hd args) ''--''" "HasPrefix (hd args) ''-''" "\<not> 2 < length (hd args)"
      "rawArgsBody result args =
         (result(drop 1 (hd args) \<mapsto> valuesAt result (drop 1 (hd args)) @ munchArgs (tl args)),
          drop (length (munchArgs (tl args))) (tl args))"
  | (cluster) "\<not> HasPrefix (hd args) ''--''" "HasPrefix (hd args) ''-''" "2 < length (hd args)"
      "rawArgsBody result args = (clusterLoop (hd args) 2 result, tl args)"
  | (bare) "stuck args" "rawArgsBody result args = (result, args)"
proof -
  from assms obtain a rest where args: "args = a # rest" by (cases args) auto
  show thesis
  proof (cases "HasPrefix a ''--''")
    case True
    then show ?thesis using long args long_flag_body [of a result rest] by simp
  next
    case nl: False
    show ?thesis
    proof (cases "HasPrefix a ''-''")
      case True
      show ?thesis
      proof (cases "2 < length a")
        case True
        with nl \<open>HasPrefix a ''-''\<close> show ?thesis
          using cluster args cluster_body [of a result rest] by simp
      next
        case False
        with nl \<open>HasPrefix a ''-''\<close> show ?thesis
          using short args short_flag_body [of a result rest] by simp
      qed
    next
      case False
      with nl show ?thesis
        using bare args by (simp add: stuck_def rawArgsBody_def)
    qed
  qed
qed

lemma body_keeps_values:
  assumes inv: "loopInv result args" and ne: "args \<noteq> []" and old: "result key = Some vals"
  shows "\<exists>more. fst (rawArgsBody result args) key = Some (vals @ more)"
  using ne
proof (cases rule: body_cases [where result = result])
  case long
  with old show ?thesis by (auto simp: valuesAt_def)
next
  case short
  with old show ?thesis by (auto simp: valuesAt_def)
next
  case cluster
  with inv ne have sw: "onlySwitches result" by (simp add: loopInv_def)
  with old have "vals = []" by (simp add: onlySwitches_def)
  moreover from old have "clusterLoop (hd args) 2 result key \<noteq> None"
    by (intro clusterLoop_dom) simp
  then obtain ws where ws: "clusterLoop (hd args) 2 result key = Some ws" by auto
  moreover from clusterLoop_onlySwitches [OF sw] ws have "ws = []"
    by (simp add: onlySwitches_def)
  ultimately show ?thesis using cluster by simp
next
  case bare
  with old show ?thesis by simp
qed

lemma body_keeps_inv:
  assumes inv: "loopInv result args" and ne: "args \<noteq> []"
  shows "loopInv (fst (rawArgsBody result args)) (snd (rawArgsBody result args))"
  using ne
proof (cases rule: body_cases [where result = result])
  case long
  then show ?thesis using after_munch [of "tl args"] by (auto simp: loopInv_def)
next
  case short
  then show ?thesis using after_munch [of "tl args"] by (auto simp: loopInv_def)
next
  case cluster
  with inv ne have "onlySwitches result" by (simp add: loopInv_def)
  then show ?thesis using cluster clusterLoop_onlySwitches by (simp add: loopInv_def)
next
  case bare
  with inv show ?thesis by simp
qed

lemma reachable_inv: "reachable args0 s \<Longrightarrow> loopInv (fst s) (snd s)"
proof (induction rule: reachable.induct)
  case start
  show ?case by (simp add: loopInv_def onlySwitches_def)
next
  case (iter result args)
  then show ?case using body_keeps_inv [of result args] by simp
qed

lemma loop_keeps_values:
  assumes run: "rawArgsLoop result args = Some final"
  shows "loopInv result args \<Longrightarrow> result key = Some vals \<Longrightarrow> \<exists>more. final key = Some (vals @ more)"
proof -
  have "\<forall>vals. loopInv result args \<longrightarrow> result key = Some vals \<longrightarrow>
          (\<exists>more. final key = Some (vals @ more))"
  proof (rule rawArgsLoop.raw_induct
      [where P = "\<lambda>r a y. \<forall>vals. loopInv r a \<longrightarrow> r key = Some vals \<longrightarrow>
                     (\<exists>more. y key = Some (vals @ more))", OF _ run])
    fix f r a z
    assume IH: "\<And>r' a' y'. f r' a' = Some y' \<Longrightarrow>
                  \<forall>vals. loopInv r' a' \<longrightarrow> r' key = Some vals \<longrightarrow>
                    (\<exists>more. y' key = Some (vals @ more))"
      and eq: "(if a = [] then Some r
                else f (fst (rawArgsBody r a)) (snd (rawArgsBody r a))) = Some z"
    show "\<forall>vals. loopInv r a \<longrightarrow> r key = Some vals \<longrightarrow> (\<exists>more. z key = Some (vals @ more))"
    proof (intro allI impI)
      fix vals
      assume inv: "loopInv r a" and old: "r key = Some vals"
      show "\<exists>more. z key = Some (vals @ more)"
      proof (cases "a = []")
        case True
        with eq old show ?thesis by simp
      next
        case False
        with eq have f: "f (fst (rawArgsBody r a)) (snd (rawArgsBody r a)) = Some z" by simp
        from body_keeps_values [OF inv False old] obtain m1
          where m1: "fst (rawArgsBody r a) key = Some (vals @ m1)" by auto
        from IH [OF f] body_keeps_inv [OF inv False] m1 obtain m2
          where "z key = Some ((vals @ m1) @ m2)" by blast
        then show ?thesis by simp
      qed
    qed
  qed
  then show "loopInv result args \<Longrightarrow> result key = Some vals \<Longrightarrow> \<exists>more. final key = Some (vals @ more)"
    by blast
qed

lemma HasPrefix_long_short: "HasPrefix a ''--'' \<Longrightarrow> HasPrefix a ''-''"
  by (auto simp: HasPrefix_def prefix_def)

lemma returns_after_munch:
  "args = [] \<or> HasPrefix (hd args) ''--'' \<Longrightarrow> \<exists>final. rawArgsLoop result args = Some final"
proof (induction "length args" arbitrary: args result rule: less_induct)
  case less
  show ?case
  proof (cases args)
    case Nil
    then show ?thesis by (simp add: rawArgsLoop_Nil)
  next
    case (Cons a rest)
    with less.prems have long: "HasPrefix a ''--''" by simp
    let ?args' = "drop (length (munchArgs rest)) rest"
    have "length ?args' < length args" using Cons by simp
    moreover have "?args' = [] \<or> HasPrefix (hd ?args') ''--''" by (rule after_munch)
    ultimately obtain final where
      "rawArgsLoop (result(drop 2 a \<mapsto> valuesAt result (drop 2 a) @ munchArgs rest)) ?args' =
         Some final"
      using less.hyps by blast
    then show ?thesis
      using Cons long by (simp add: rawArgsLoop_step [of "a # rest"] long_flag_body)
  qed
qed

lemma returns_from_flag:
  assumes "HasPrefix a ''-''" and "\<not> isCluster a"
  shows "\<exists>final. rawArgsLoop result (a # rest) = Some final"
proof (cases "HasPrefix a ''--''")
  case True
  then show ?thesis by (intro returns_after_munch) simp
next
  case False
  with assms have short: "\<not> 2 < length a" by (simp add: isCluster_def)
  from returns_after_munch [OF after_munch [of rest]] obtain final where
    "rawArgsLoop (result(drop 1 a \<mapsto> valuesAt result (drop 1 a) @ munchArgs rest))
       (drop (length (munchArgs rest)) rest) = Some final"
    by blast
  then show ?thesis
    using False assms(1) short by (simp add: rawArgsLoop_step [of "a # rest"] short_flag_body)
qed

lemma rawArgsLoop_returns_iff:
  "(\<exists>final. rawArgsLoop result args = Some final) \<longleftrightarrow>
   (dropWhile isCluster args = [] \<or> HasPrefix (hd (dropWhile isCluster args)) ''-'')"
proof (induction args arbitrary: result)
  case Nil
  show ?case by (simp add: rawArgsLoop_Nil)
next
  case (Cons a rest)
  show ?case
  proof (cases "isCluster a")
    case True
    then have "rawArgsLoop result (a # rest) = rawArgsLoop (clusterLoop a 2 result) rest"
      by (simp add: rawArgsLoop_step [of "a # rest"] cluster_body isCluster_def)
    with True Cons.IH [of "clusterLoop a 2 result"] show ?thesis by simp
  next
    case nc: False
    show ?thesis
    proof (cases "HasPrefix a ''-''")
      case True
      with nc returns_from_flag [of a result rest] show ?thesis by simp
    next
      case False
      then have "stuck (a # rest)"
        using HasPrefix_long_short [of a] by (auto simp: stuck_def)
      then have "rawArgsLoop result (a # rest) = None" by (rule rawArgsLoop_stuck)
      with nc False show ?thesis by simp
    qed
  qed
qed

text \<open>
  Claim C1. A parse call returns for every destination and every token list; a top-level
  token that starts with neither \<open>--\<close> nor \<open>-\<close> is skipped. The code does not do that: on
  such a token no branch of the loop body applies, \<open>args\<close> is not shortened, and the loop
  runs forever (lemma \<open>rawArgsLoop_stuck\<close>); lemma \<open>rawArgsLoop_returns_iff\<close> says for
  which token lists the loop returns: those whose first token after the leading clusters,
  if there is one, starts with \<open>-\<close>. Evaluated at the token list \<open>["foo"]\<close>:
  \<open>rawArgsMap\<close>, \<open>parseStruct\<close>, \<open>parseMap\<close> and \<open>parse\<close> on a map do not return.
\<close>

theorem bare_token_diverges:
  "rawArgsMap [''foo''] = None \<and>
   parseStruct exampleLib [] [''foo''] = None \<and>
   parseMap exampleLib (\<lambda>m. []) TString (Some Map.empty) [''foo''] = None \<and>
   parse exampleLib (\<lambda>m. []) (PtrMap TString TInterface (Some Map.empty)) [''foo''] = None"
proof -
  have "rawArgsMap [''foo''] = None"
    by (simp add: rawArgsMap_def rawArgsLoop_stuck stuck_def HasPrefix_def)
  then show ?thesis
    by (simp add: parseStruct_def parseMap_def parse_def getType_def)
qed

text \<open>
  Claim C2. A cluster of short switches registers every character but the last with no
  value, and the last character then behaves as a lone short flag that munches the tokens
  after it. The code registers the characters but the last and then drops the token: the
  last character is never made a key, and nothing is munched. Evaluated: \<open>-abc\<close> gives the
  keys \<open>a\<close> and \<open>b\<close> only; \<open>-abc x\<close> does not return, since \<open>x\<close> is left at the head of
  \<open>args\<close>; the lone flag \<open>-c x\<close> gives \<open>c\<close> the value \<open>x\<close>.
\<close>

theorem cluster_drops_last_switch:
  "rawArgsMap [''-abc''] = Some [''a'' \<mapsto> [], ''b'' \<mapsto> []] \<and>
   rawArgsMap [''-abc'', ''x''] = None \<and>
   rawArgsMap [''-c'', ''x''] = Some [''c'' \<mapsto> [''x'']]"
proof -
  have body: "rawArgsBody Map.empty (''-abc'' # rest) = ([''a'' \<mapsto> [], ''b'' \<mapsto> []], rest)" for rest
    by (simp add: cluster_body HasPrefix_def clusterLoop.simps substr_def)
  have 1: "rawArgsMap [''-abc''] = Some [''a'' \<mapsto> [], ''b'' \<mapsto> []]"
    by (simp add: rawArgsMap_def rawArgsLoop_step body rawArgsLoop_Nil)
  have "rawArgsLoop [''a'' \<mapsto> [], ''b'' \<mapsto> []] [''x''] = None"
    by (rule rawArgsLoop_stuck) (simp add: stuck_def HasPrefix_def)
  then have 2: "rawArgsMap [''-abc'', ''x''] = None"
    by (simp add: rawArgsMap_def rawArgsLoop_step [of "[''-abc'', ''x'']"] body)
  have 3: "rawArgsMap [''-c'', ''x''] = Some [''c'' \<mapsto> [''x'']]"
    by (simp add: rawArgsMap_def rawArgsLoop_step short_flag_body HasPrefix_def
        munchArgs_def valuesAt_def rawArgsLoop_Nil)
  from 1 2 3 show ?thesis by simp
qed

text \<open>
  Claim C3. When a key occurs again, its values are appended to the list the key has; no
  value collected earlier is overwritten or dropped. For every state \<open>(result, args)\<close> that
  the loop of \<open>rawArgsMap args0\<close> reaches and every key with \<open>result key = Some vals\<close>:
  one more iteration leaves the key with \<open>vals @ more\<close>; when the head token is the long
  or the lone short flag of this key, what is appended is what \<open>munchArgs\<close> collects; and
  the map returned in the end still has \<open>vals\<close> as a prefix of the key's list. The cluster
  branch assigns the empty list, but it is only reached while every key of \<open>result\<close> has
  the empty list (\<open>loopInv\<close>).
\<close>

theorem repeated_key_appends:
  assumes "reachable args0 (result, args)" and "result key = Some vals"
  shows "(args \<noteq> [] \<longrightarrow> (\<exists>more. fst (rawArgsBody result args) key = Some (vals @ more))) \<and>
         (args \<noteq> [] \<and> HasPrefix (hd args) ''--'' \<and> key = drop 2 (hd args) \<longrightarrow>
            fst (rawArgsBody result args) key = Some (vals @ munchArgs (tl args))) \<and>
         (args \<noteq> [] \<and> \<not> HasPrefix (hd args) ''--'' \<and> HasPrefix (hd args) ''-'' \<and>
            \<not> 2 < length (hd args) \<and> key = drop 1 (hd args) \<longrightarrow>
            fst (rawArgsBody result args) key = Some (vals @ munchArgs (tl args))) \<and>
         (\<forall>final. rawArgsLoop result args = Some final \<longrightarrow>
            (\<exists>more. final key = Some (vals @ more)))"
proof -
  from assms(1) have inv: "loopInv result args"
    using reachable_inv [of args0 "(result, args)"] by simp
  have 1: "args \<noteq> [] \<longrightarrow> (\<exists>more. fst (rawArgsBody result args) key = Some (vals @ more))"
    using body_keeps_values [OF inv _ assms(2)] by blast
  have 2: "args \<noteq> [] \<and> HasPrefix (hd args) ''--'' \<and> key = drop 2 (hd args) \<longrightarrow>
            fst (rawArgsBody result args) key = Some (vals @ munchArgs (tl args))"
    using assms(2) by (auto simp: rawArgsBody_def Let_def valuesAt_def)
  have 3: "args \<noteq> [] \<and> \<not> HasPrefix (hd args) ''--'' \<and> HasPrefix (hd args) ''-'' \<and>
            \<not> 2 < length (hd args) \<and> key = drop 1 (hd args) \<longrightarrow>
            fst (rawArgsBody result args) key = Some (vals @ munchArgs (tl args))"
    using assms(2) by (auto simp: rawArgsBody_def Let_def valuesAt_def)
  have 4: "\<forall>final. rawArgsLoop result args = Some final \<longrightarrow>
            (\<exists>more. final key = Some (vals @ more))"
    using loop_keeps_values [OF _ inv assms(2)] by blast
  from 1 2 3 4 show ?thesis by blast
qed

lemma ex_body: "rawArgsBody Map.empty [''--k'', ''a'', ''--k'', ''b''] = ([''k'' \<mapsto> [''a'']], [''--k'', ''b''])"
  by (simp add: long_flag_body HasPrefix_def munchArgs_def valuesAt_def)

theorem repeated_key_appends_witness:
  "reachable [''--k'', ''a'', ''--k'', ''b''] ([''k'' \<mapsto> [''a'']], [''--k'', ''b'']) \<and>
   [''k'' \<mapsto> [''a'']] ''k'' = Some [''a''] \<and>
   fst (rawArgsBody [''k'' \<mapsto> [''a'']] [''--k'', ''b'']) ''k'' = Some ([''a''] @ [''b'']) \<and>
   rawArgsMap [''--k'', ''a'', ''--k'', ''b''] = Some [''k'' \<mapsto> [''a'', ''b'']]"
proof -
  have r: "reachable [''--k'', ''a'', ''--k'', ''b''] ([''k'' \<mapsto> [''a'']], [''--k'', ''b''])"
    using reachable.iter [OF reachable.start, of "[''--k'', ''a'', ''--k'', ''b'']"]
    by (simp add: ex_body)
  have v: "[''k'' \<mapsto> [''a'']] ''k'' = Some [''a'']" by simp
  have b: "rawArgsBody [''k'' \<mapsto> [''a'']] [''--k'', ''b''] = ([''k'' \<mapsto> [''a'', ''b'']], [])"
    by (simp add: long_flag_body HasPrefix_def munchArgs_def valuesAt_def)
  have m: "rawArgsMap [''--k'', ''a'', ''--k'', ''b''] = Some [''k'' \<mapsto> [''a'', ''b'']]"
    by (simp add: rawArgsMap_def rawArgsLoop_step ex_body b rawArgsLoop_Nil)
  from repeated_key_appends [OF r v] r v b m show ?thesis by simp
qed

text \<open>
  Claim C4. The tokens \<open>--k v1 ... vn\<close>, where no \<open>vi\<close> starts with \<open>--\<close>, give the map
  \<open>{k: [v1, ..., vn]}\<close>; a \<open>vi\<close> that starts with a single \<open>-\<close> is a value of \<open>k\<close> like any
  other (the witness has \<open>-b\<close> among the values).
\<close>

theorem long_flag_collects_values:
  assumes "\<forall>v \<in> set vs. \<not> HasPrefix v ''--''"
  shows "rawArgsMap ((''--'' @ k) # vs) = Some [k \<mapsto> vs]"
  using assms by (rule long_flag_run)

theorem long_flag_collects_values_witness:
  "rawArgsMap [''--key'', ''a'', ''-b'', ''c''] = Some [''key'' \<mapsto> [''a'', ''-b'', ''c'']]"
  using long_flag_collects_values [of "[''a'', ''-b'', ''c'']" "''key''"]
  by (simp add: HasPrefix_def)

section \<open>Properties of parseStruct\<close>

lemma structLoop_step:
  "i < length v \<Longrightarrow>
   structLoop lib rawData i v =
     (case parseField lib rawData (fst (v ! i)) (snd (v ! i)) of
        (Some err, fval) \<Rightarrow> (Some err, v[i := (fst (v ! i), fval)])
      | (None, fval) \<Rightarrow> structLoop lib rawData (i + 1) (v[i := (fst (v ! i), fval)]))"
  by (subst structLoop.simps) (simp only: if_True)

lemma structLoop_done: "\<not> i < length v \<Longrightarrow> structLoop lib rawData i v = (None, v)"
  by (subst structLoop.simps) (simp only: if_False)

lemma empty_key: "rawArgsMap [''--'', ''x''] = Some ['''' \<mapsto> [''x'']]"
  using long_flag_run [of "[''x'']" "''''"] by (simp add: HasPrefix_def)

lemma count_args: "rawArgsMap [''--count'', ''abc''] = Some [''count'' \<mapsto> [''abc'']]"
  using long_flag_run [of "[''abc'']" "''count''"] by (simp add: HasPrefix_def)

lemma lone_args: "rawArgsMap [''--name''] = Some [''name'' \<mapsto> []]"
  using long_flag_run [of "[]" "''name''"] by simp

lemma bar_args: "rawArgsMap [''--bar'', ''x''] = Some [''bar'' \<mapsto> [''x'']]"
  using long_flag_run [of "[''x'']" "''bar''"] by (simp add: HasPrefix_def)

lemma no_tag: "parseTagData '''' = \<lparr>Description = '''', Required = False, ShortFlag = ''''\<rparr>"
  by (simp add: parseTagData_def)

lemma lower_Name: "ToLower exampleLib ''Name'' = ''name''"
  by (simp add: exampleLib_def asciiLower_def)

lemma lower_Count: "ToLower exampleLib ''Count'' = ''count''"
  by (simp add: exampleLib_def asciiLower_def)

lemma lower_Foo: "ToLower exampleLib ''Foo'' = ''foo''"
  by (simp add: exampleLib_def asciiLower_def)

lemma lower_Bar: "ToLower exampleLib ''Bar'' = ''bar''"
  by (simp add: exampleLib_def asciiLower_def)

lemma abc_syntax: "ParseInt exampleLib ''abc'' 0 64 = Inl ErrSyntax"
  by (simp add: exampleLib_def decimalInt_def isDigit_def)

lemma foo_required:
  "parseTagData ''a foo,r'' = \<lparr>Description = ''a foo'', Required = True, ShortFlag = ''''\<rparr>"
  by (simp add: parseTagData_def HasPrefix_def)

lemma parseField_found:
  assumes "PkgPath field = ''''" and "\<not> Anonymous field"
    and "findData rawData (ToLower lib (Name field)) (parseTagData (Tag field)) = Some data"
    and "target field fval = (ftype, slot, store)"
  shows "parseField lib rawData field fval =
           (fst (assign lib field (ToLower lib (Name field)) ftype data slot),
            store (snd (assign lib field (ToLower lib (Name field)) ftype data slot)))"
  using assms by (simp add: parseField_def Let_def split: prod.splits)

lemma checkArgLen_cases:
  "checkArgLen data name =
     (if length data = 1 then None
      else if length data = 0 then Some (OptionNotSet name)
      else Some (OptionMoreThanOnce name))"
  by (cases data) (auto simp: checkArgLen_def)

lemma assign_error_keeps_slot:
  "assign lib field name ftype data slot = (Some err, x) \<Longrightarrow> x = slot"
  by (cases ftype)
    (auto simp: assign_def fillSlice_def split: option.splits sum.splits if_splits gotype.splits)

lemma parseField_absent:
  assumes "rawData (ToLower lib (Name field)) = None"
    and "rawData (ShortFlag (parseTagData (Tag field))) = None"
  shows "parseField lib rawData field fval =
           (if PkgPath field = '''' \<and> \<not> Anonymous field \<and> Required (parseTagData (Tag field))
            then Some (RequiredNotSupplied (ToLower lib (Name field))) else None, fval)"
  using assms by (simp add: parseField_def findData_def Let_def)

lemma structLoop_frame:
  assumes "structLoop lib rawData i v = (err, v')" and "j < length v"
    and "j < i \<or> snd (parseField lib rawData (fst (v ! j)) (snd (v ! j))) = snd (v ! j)"
  shows "v' ! j = v ! j"
  using assms
proof (induction lib rawData i v rule: structLoop.induct)
  case (1 lib rawData i v)
  show ?case
  proof (cases "i < length v")
    case False
    with 1(2) show ?thesis by (simp add: structLoop_done)
  next
    case True
    obtain e fval where pf: "parseField lib rawData (fst (v ! i)) (snd (v ! i)) = (e, fval)"
      by (cases "parseField lib rawData (fst (v ! i)) (snd (v ! i))") auto
    let ?v1 = "v[i := (fst (v ! i), fval)]"
    have keep: "?v1 ! j = v ! j"
    proof (cases "j = i")
      case True
      with 1(4) pf have "fval = snd (v ! i)" by simp
      with True \<open>i < length v\<close> show ?thesis by simp
    next
      case False
      then show ?thesis by simp
    qed
    show ?thesis
    proof (cases e)
      case (Some x)
      with 1(2) pf True have "v' = ?v1" by (simp add: structLoop_step)
      with keep show ?thesis by simp
    next
      case None
      with 1(2) pf True have run: "structLoop lib rawData (i + 1) ?v1 = (err, v')"
        by (simp add: structLoop_step)
      have "j < i + 1 \<or>
            snd (parseField lib rawData (fst (?v1 ! j)) (snd (?v1 ! j))) = snd (?v1 ! j)"
        using 1(4) keep by (cases "j = i") auto
      from 1(1) [OF True pf [symmetric] None run _ this] 1(3) keep show ?thesis by simp
    qed
  qed
qed

lemma absent_field_keeps_value:
  assumes "rawArgsMap args = Some rawData" and "parseStruct lib v args = Some (err, v')"
    and "j < length v"
    and "rawData (ToLower lib (Name (fst (v ! j)))) = None"
    and "rawData (ShortFlag (parseTagData (Tag (fst (v ! j))))) = None"
  shows "v' ! j = v ! j"
proof -
  from assms(1,2) have "structLoop lib rawData 0 v = (err, v')"
    by (simp add: parseStruct_def)
  moreover have "snd (parseField lib rawData (fst (v ! j)) (snd (v ! j))) = snd (v ! j)"
    using parseField_absent [OF assms(4,5)] by simp
  ultimately show ?thesis using assms(3) by (intro structLoop_frame) auto
qed

lemma structLoop_first_error:
  assumes "i \<le> j" and "j < length v"
    and "\<forall>k. i \<le> k \<and> k < j \<longrightarrow> fst (parseField lib rawData (fst (v ! k)) (snd (v ! k))) = None"
    and "fst (parseField lib rawData (fst (v ! j)) (snd (v ! j))) = Some err"
  shows "fst (structLoop lib rawData i v) = Some err"
  using assms
proof (induction lib rawData i v rule: structLoop.induct)
  case (1 lib rawData i v)
  from 1(2,3) have lt: "i < length v" by simp
  obtain e fval where pf: "parseField lib rawData (fst (v ! i)) (snd (v ! i)) = (e, fval)"
    by (cases "parseField lib rawData (fst (v ! i)) (snd (v ! i))") auto
  show ?case
  proof (cases "i = j")
    case True
    with 1(5) pf have "e = Some err" by simp
    with pf lt show ?thesis by (simp add: structLoop_step)
  next
    case False
    with 1(2) have less: "i < j" by simp
    with 1(4) pf have none: "e = None" by auto
    let ?v1 = "v[i := (fst (v ! i), fval)]"
    have same: "?v1 ! k = v ! k" if "i < k" for k using that by simp
    have "fst (structLoop lib rawData (i + 1) ?v1) = Some err"
    proof (rule 1(1) [OF lt pf [symmetric] none])
      show "i + 1 \<le> j" using less by simp
      show "j < length ?v1" using 1(3) by simp
      show "\<forall>k. i + 1 \<le> k \<and> k < j \<longrightarrow>
              fst (parseField lib rawData (fst (?v1 ! k)) (snd (?v1 ! k))) = None"
        using 1(4) same by simp
      show "fst (parseField lib rawData (fst (?v1 ! j)) (snd (?v1 ! j))) = Some err"
        using 1(5) same [OF less] by simp
    qed
    with pf none lt show ?thesis by (simp add: structLoop_step)
  qed
qed

lemma structLoop_fails:
  assumes "i \<le> j" and "j < length v"
    and "fst (parseField lib rawData (fst (v ! j)) (snd (v ! j))) \<noteq> None"
  shows "fst (structLoop lib rawData i v) \<noteq> None"
proof -
  let ?bad = "\<lambda>k. i \<le> k \<and> k < length v \<and>
                 fst (parseField lib rawData (fst (v ! k)) (snd (v ! k))) \<noteq> None"
  define k where "k = (LEAST k. ?bad k)"
  from assms have "?bad j" by simp
  then have bad: "?bad k"
    unfolding k_def by (rule LeastI)
  have least: "k \<le> k'" if "?bad k'" for k'
    unfolding k_def using that by (rule Least_le)
  from bad obtain err where
    err: "fst (parseField lib rawData (fst (v ! k)) (snd (v ! k))) = Some err" by auto
  have "\<forall>k'. i \<le> k' \<and> k' < k \<longrightarrow>
          fst (parseField lib rawData (fst (v ! k')) (snd (v ! k'))) = None"
  proof (intro allI impI)
    fix k' assume "i \<le> k' \<and> k' < k"
    with least [of k'] bad show "fst (parseField lib rawData (fst (v ! k')) (snd (v ! k'))) = None"
      by (cases "fst (parseField lib rawData (fst (v ! k')) (snd (v ! k')))") auto
  qed
  with structLoop_first_error [of i k v lib rawData err] bad err show ?thesis by simp
qed

lemma bar_required:
  "parseTagData ''this is a bar,r'' =
     \<lparr>Description = ''this is a bar'', Required = True, ShortFlag = ''''\<rparr>"
  by (simp add: parseTagData_def HasPrefix_def)

lemma baz_required:
  "parseTagData ''a baz!,r'' = \<lparr>Description = ''a baz!'', Required = True, ShortFlag = ''''\<rparr>"
  by (simp add: parseTagData_def HasPrefix_def)

lemma no_args: "rawArgsMap [] = Some Map.empty"
  by (simp add: rawArgsMap_def rawArgsLoop_Nil)

text \<open>
  The lookup of the alias is \<open>rawData[tagData.ShortFlag]\<close> also for a field without alias,
  whose \<open>ShortFlag\<close> is the empty string, and the tokens \<open>--\<close> and \<open>-\<close> make the empty
  string a key. So the required field \<open>Foo\<close> with the tag \<open>a foo,r\<close> is found on the tokens
  \<open>-- x\<close>: parse returns no error and \<open>Foo\<close> holds \<open>x\<close>, while on \<open>--bar x\<close> parse returns
  the required-argument error.
\<close>

lemma required_field_taken_from_empty_key:
  "Required (parseTagData ''a foo,r'') \<and>
   ShortFlag (parseTagData ''a foo,r'') = '''' \<and>
   rawArgsMap [''--'', ''x''] = Some ['''' \<mapsto> [''x'']] \<and>
   parseStruct exampleLib
     [(\<lparr>Name = ''Foo'', PkgPath = '''', Anonymous = False, Tag = ''a foo,r'', Type = TString\<rparr>,
       VString ''dflt'')]
     [''--'', ''x''] =
   Some (None,
     [(\<lparr>Name = ''Foo'', PkgPath = '''', Anonymous = False, Tag = ''a foo,r'', Type = TString\<rparr>,
       VString ''x'')]) \<and>
   parseStruct exampleLib
     [(\<lparr>Name = ''Foo'', PkgPath = '''', Anonymous = False, Tag = ''a foo,r'', Type = TString\<rparr>,
       VString ''dflt'')]
     [''--bar'', ''x''] =
   Some (Some (RequiredNotSupplied ''foo''),
     [(\<lparr>Name = ''Foo'', PkgPath = '''', Anonymous = False, Tag = ''a foo,r'', Type = TString\<rparr>,
       VString ''dflt'')])"
proof -
  have 1: "parseField exampleLib ['''' \<mapsto> [''x'']]
     \<lparr>Name = ''Foo'', PkgPath = '''', Anonymous = False, Tag = ''a foo,r'', Type = TString\<rparr>
     (VString ''dflt'') = (None, VString ''x'')"
    by (simp add: parseField_def lower_Foo foo_required findData_def target_def assign_def
        checkArgLen_def)
  have 2: "parseField exampleLib [''bar'' \<mapsto> [''x'']]
     \<lparr>Name = ''Foo'', PkgPath = '''', Anonymous = False, Tag = ''a foo,r'', Type = TString\<rparr>
     (VString ''dflt'') = (Some (RequiredNotSupplied ''foo''), VString ''dflt'')"
    by (simp add: parseField_def lower_Foo foo_required findData_def)
  from 1 2 show ?thesis
    by (simp add: foo_required parseStruct_def empty_key bar_args structLoop_step structLoop_done)
qed

text \<open>
  Claim C5, as amended. For a required field of a record with neither \<open>rawData[name]\<close>
  nor \<open>rawData[ShortFlag]\<close> present, parse fails, and the error is the required-argument
  error that names the field when every field declared before it is parsed without error;
  a field whose flag is found with values that the switch coerces is parsed without
  error and holds the coerced value; a field that is not required and has neither key is
  skipped, its value as it was.
\<close>

theorem required_field_enforced:
  assumes "rawArgsMap args = Some rawData" and "j < length v"
    and "field = fst (v ! j)" and "fval = snd (v ! j)"
    and "PkgPath field = ''''" and "\<not> Anonymous field"
    and "name = ToLower lib (Name field)" and "td = parseTagData (Tag field)"
  shows "(Required td \<and> rawData name = None \<and> rawData (ShortFlag td) = None \<longrightarrow>
           (\<exists>err v'. parseStruct lib v args = Some (Some err, v')) \<and>
           ((\<forall>i < j. fst (parseField lib rawData (fst (v ! i)) (snd (v ! i))) = None) \<longrightarrow>
              (\<exists>v'. parseStruct lib v args = Some (Some (RequiredNotSupplied name), v')))) \<and>
         (\<forall>data ftype slot store x.
            findData rawData name td = Some data \<and> target field fval = (ftype, slot, store) \<and>
            assign lib field name ftype data slot = (None, x) \<longrightarrow>
              parseField lib rawData field fval = (None, store x)) \<and>
         (\<not> Required td \<and> rawData name = None \<and> rawData (ShortFlag td) = None \<longrightarrow>
            parseField lib rawData field fval = (None, fval))"
proof (intro conjI impI allI)
  assume h: "Required td \<and> rawData name = None \<and> rawData (ShortFlag td) = None"
  with assms have pf: "parseField lib rawData (fst (v ! j)) (snd (v ! j)) =
      (Some (RequiredNotSupplied name), fval)"
    using parseField_absent [of rawData lib field fval] by simp
  then have "fst (structLoop lib rawData 0 v) \<noteq> None"
    using structLoop_fails [of 0 j v lib rawData] assms(2) by simp
  then obtain err v' where "structLoop lib rawData 0 v = (Some err, v')"
    by (cases "structLoop lib rawData 0 v") auto
  with assms(1) show "\<exists>err v'. parseStruct lib v args = Some (Some err, v')"
    by (simp add: parseStruct_def)
  assume "\<forall>i < j. fst (parseField lib rawData (fst (v ! i)) (snd (v ! i))) = None"
  with pf have "fst (structLoop lib rawData 0 v) = Some (RequiredNotSupplied name)"
    using structLoop_first_error [of 0 j v lib rawData "RequiredNotSupplied name"] assms(2)
    by simp
  then obtain v' where "structLoop lib rawData 0 v = (Some (RequiredNotSupplied name), v')"
    by (cases "structLoop lib rawData 0 v") auto
  with assms(1) show "\<exists>v'. parseStruct lib v args = Some (Some (RequiredNotSupplied name), v')"
    by (simp add: parseStruct_def)
next
  fix data ftype slot store x
  assume "findData rawData name td = Some data \<and> target field fval = (ftype, slot, store) \<and>
            assign lib field name ftype data slot = (None, x)"
  with assms show "parseField lib rawData field fval = (None, store x)"
    using parseField_found [of field rawData lib data fval ftype slot store] by simp
next
  assume "\<not> Required td \<and> rawData name = None \<and> rawData (ShortFlag td) = None"
  with assms show "parseField lib rawData field fval = (None, fval)"
    using parseField_absent [of rawData lib field fval] by simp
qed

theorem required_field_enforced_witness:
  "\<exists>v'. parseStruct exampleLib
       [(\<lparr>Name = ''Bar'', PkgPath = '''', Anonymous = False, Tag = ''this is a bar,r'',
          Type = TString\<rparr>, VString ''''),
        (\<lparr>Name = ''Baz'', PkgPath = '''', Anonymous = False, Tag = ''a baz!,r'',
          Type = TString\<rparr>, VString '''')]
       [] = Some (Some (RequiredNotSupplied ''bar''), v')"
  using required_field_enforced
    [OF no_args, of 0
        "[(\<lparr>Name = ''Bar'', PkgPath = '''', Anonymous = False, Tag = ''this is a bar,r'',
            Type = TString\<rparr>, VString ''''),
          (\<lparr>Name = ''Baz'', PkgPath = '''', Anonymous = False, Tag = ''a baz!,r'',
            Type = TString\<rparr>, VString '''')]"
        "\<lparr>Name = ''Bar'', PkgPath = '''', Anonymous = False, Tag = ''this is a bar,r'',
            Type = TString\<rparr>"
        "VString ''''" "''bar''" exampleLib
        "\<lparr>Description = ''this is a bar'', Required = True, ShortFlag = ''''\<rparr>"]
  by (simp add: bar_required lower_Bar)

text \<open>
  Claim C5 as stated (parse fails with the required-argument error naming the field) fails
  for a field that is not the first to fail: with the required fields \<open>Bar\<close> and \<open>Baz\<close> and
  no tokens, \<open>Baz\<close> is required and has no key, and the error names \<open>bar\<close>.
\<close>

theorem second_required_field_not_named:
  "Required (parseTagData ''a baz!,r'') \<and>
   rawArgsMap [] = Some Map.empty \<and>
   parseStruct exampleLib
     [(\<lparr>Name = ''Bar'', PkgPath = '''', Anonymous = False, Tag = ''this is a bar,r'',
        Type = TString\<rparr>, VString ''''),
      (\<lparr>Name = ''Baz'', PkgPath = '''', Anonymous = False, Tag = ''a baz!,r'',
        Type = TString\<rparr>, VString '''')]
     [] =
   Some (Some (RequiredNotSupplied ''bar''),
     [(\<lparr>Name = ''Bar'', PkgPath = '''', Anonymous = False, Tag = ''this is a bar,r'',
        Type = TString\<rparr>, VString ''''),
      (\<lparr>Name = ''Baz'', PkgPath = '''', Anonymous = False, Tag = ''a baz!,r'',
        Type = TString\<rparr>, VString '''')])"
proof -
  have "parseField exampleLib Map.empty
     \<lparr>Name = ''Bar'', PkgPath = '''', Anonymous = False, Tag = ''this is a bar,r'',
        Type = TString\<rparr> (VString '''') = (Some (RequiredNotSupplied ''bar''), VString '''')"
    by (simp add: parseField_def lower_Bar bar_required findData_def)
  then show ?thesis
    by (simp add: baz_required parseStruct_def no_args structLoop_step)
qed

text \<open>
  Claim C6, as amended. For a pointer field whose flag is found, the field is set to a
  fresh pointer before the values are coerced: whatever the switch returns, the field is
  a pointer afterwards, what it points at is what the switch left of a zero value of the
  element type, and when the switch returns an error that is the zero value itself.
\<close>

theorem pointer_field_allocated_before_coercion:
  assumes "PkgPath field = ''''" and "\<not> Anonymous field"
    and "findData rawData (ToLower lib (Name field)) (parseTagData (Tag field)) = Some data"
    and "Type field = TPtr elem"
  shows "\<exists>err pointee.
           parseField lib rawData field fval = (err, VPtr pointee) \<and>
           (err, pointee) = assign lib field (ToLower lib (Name field)) elem data (zeroValue elem) \<and>
           (err \<noteq> None \<longrightarrow> pointee = zeroValue elem)"
proof -
  obtain err pointee where
    a: "assign lib field (ToLower lib (Name field)) elem data (zeroValue elem) = (err, pointee)"
    by (cases "assign lib field (ToLower lib (Name field)) elem data (zeroValue elem)") auto
  from assms(4) have t: "target field fval = (elem, zeroValue elem, VPtr)"
    by (simp add: target_def)
  from parseField_found [OF assms(1,2,3) t] a
  have "parseField lib rawData field fval = (err, VPtr pointee)" by simp
  moreover have "err \<noteq> None \<longrightarrow> pointee = zeroValue elem"
    using assign_error_keeps_slot a by fastforce
  ultimately show ?thesis using a by auto
qed

theorem pointer_field_allocated_before_coercion_witness:
  "parseField exampleLib [''name'' \<mapsto> []]
     \<lparr>Name = ''Name'', PkgPath = '''', Anonymous = False, Tag = '''', Type = TPtr TString\<rparr>
     VNil = (Some (Wrapped (OptionNotSet ''name'')), VPtr (VString ''''))"
  using pointer_field_allocated_before_coercion
    [of "\<lparr>Name = ''Name'', PkgPath = '''', Anonymous = False, Tag = '''', Type = TPtr TString\<rparr>"
        "[''name'' \<mapsto> []]" exampleLib "[]" TString "VNil :: rat val"]
  by (simp add: lower_Name findData_def assign_def checkArgLen_def)

text \<open>
  Claim C6 as stated (a failed coercion leaves the pointer field unset) fails: a nil
  \<open>*string\<close> field \<open>Name\<close> on the tokens \<open>--name\<close>, and a nil \<open>*int64\<close> field \<open>Count\<close> on
  \<open>--count abc\<close>, end up pointing at the empty string and at 0, with the error returned.
\<close>

theorem failed_coercion_leaves_pointer_allocated:
  "parseStruct exampleLib
     [(\<lparr>Name = ''Name'', PkgPath = '''', Anonymous = False, Tag = '''', Type = TPtr TString\<rparr>,
       VNil)]
     [''--name''] =
   Some (Some (Wrapped (OptionNotSet ''name'')),
     [(\<lparr>Name = ''Name'', PkgPath = '''', Anonymous = False, Tag = '''', Type = TPtr TString\<rparr>,
       VPtr (VString ''''))]) \<and>
   parseStruct exampleLib
     [(\<lparr>Name = ''Count'', PkgPath = '''', Anonymous = False, Tag = '''', Type = TPtr (TInt 64)\<rparr>,
       VNil)]
     [''--count'', ''abc''] =
   Some (Some (Wrapped (Strconv ErrSyntax)),
     [(\<lparr>Name = ''Count'', PkgPath = '''', Anonymous = False, Tag = '''', Type = TPtr (TInt 64)\<rparr>,
       VPtr (VInt 0))])"
proof -
  have 1: "parseField exampleLib [''name'' \<mapsto> []]
     \<lparr>Name = ''Name'', PkgPath = '''', Anonymous = False, Tag = '''', Type = TPtr TString\<rparr>
     VNil = (Some (Wrapped (OptionNotSet ''name'')), VPtr (VString ''''))"
    by (simp add: parseField_def lower_Name no_tag findData_def target_def assign_def
        checkArgLen_def)
  have 2: "parseField exampleLib [''count'' \<mapsto> [''abc'']]
     \<lparr>Name = ''Count'', PkgPath = '''', Anonymous = False, Tag = '''', Type = TPtr (TInt 64)\<rparr>
     VNil = (Some (Wrapped (Strconv ErrSyntax)), VPtr (VInt 0))"
    by (simp add: parseField_def lower_Count no_tag findData_def target_def assign_def
        checkArgLen_def abc_syntax)
  from 1 2 show ?thesis
    by (simp add: parseStruct_def lone_args count_args structLoop_step)
qed

text \<open>
  Claim C7. A field with no matching key, neither its name nor its short alias, keeps
  its value across a successful parse: a nil pointer stays nil, any other field keeps the
  default the caller put there. The code looks up the empty \<open>ShortFlag\<close> of a field
  without alias, which the tokens \<open>--\<close> and \<open>-\<close> make a key. Evaluated for the fields \<open>Foo string\<close> with the default \<open>dflt\<close>
  and \<open>Bar *string\<close>, nil, neither with an alias, on the tokens \<open>-- x\<close>: parse succeeds,
  \<open>Foo\<close> holds \<open>x\<close> and \<open>Bar\<close> points at \<open>x\<close>. Lemma \<open>absent_field_keeps_value\<close> is the
  claim with the lookup of the code.
\<close>

theorem absent_fields_changed_by_empty_key:
  "rawArgsMap [''--'', ''x''] = Some ['''' \<mapsto> [''x'']] \<and>
   parseStruct exampleLib
     [(\<lparr>Name = ''Foo'', PkgPath = '''', Anonymous = False, Tag = '''', Type = TString\<rparr>,
       VString ''dflt''),
      (\<lparr>Name = ''Bar'', PkgPath = '''', Anonymous = False, Tag = '''', Type = TPtr TString\<rparr>,
       VNil)]
     [''--'', ''x''] =
   Some (None,
     [(\<lparr>Name = ''Foo'', PkgPath = '''', Anonymous = False, Tag = '''', Type = TString\<rparr>,
       VString ''x''),
      (\<lparr>Name = ''Bar'', PkgPath = '''', Anonymous = False, Tag = '''', Type = TPtr TString\<rparr>,
       VPtr (VString ''x''))])"
proof -
  have 1: "parseField exampleLib ['''' \<mapsto> [''x'']]
     \<lparr>Name = ''Foo'', PkgPath = '''', Anonymous = False, Tag = '''', Type = TString\<rparr>
     (VString ''dflt'') = (None, VString ''x'')"
    by (simp add: parseField_def lower_Foo no_tag findData_def target_def assign_def
        checkArgLen_def)
  have 2: "parseField exampleLib ['''' \<mapsto> [''x'']]
     \<lparr>Name = ''Bar'', PkgPath = '''', Anonymous = False, Tag = '''', Type = TPtr TString\<rparr>
     VNil = (None, VPtr (VString ''x''))"
    by (simp add: parseField_def lower_Bar no_tag findData_def target_def assign_def
        checkArgLen_def)
  from 1 2 show ?thesis
    by (simp add: parseStruct_def empty_key structLoop_step structLoop_done)
qed

text \<open>
  Claim C9, as amended. For an exported field whose flag is found with the raw values
  \<open>data\<close>, and the slot that the switch works on: a string is assigned exactly when
  \<open>data\<close> has one value; a signed, unsigned or floating-point number is assigned exactly
  when \<open>data\<close> has one value and \<open>strconv\<close> parses it at the bit size of the type, and
  otherwise the error of \<open>strconv\<close> is returned; no value gives "specified but not set"
  and more than one "specified more than once"; a boolean is set to true exactly when
  \<open>data\<close> is empty, and any value gives an error. On every error the slot keeps its value.
\<close>

theorem scalar_and_boolean_cardinality:
  assumes "PkgPath field = ''''" and "\<not> Anonymous field"
    and "name = ToLower lib (Name field)"
    and "findData rawData name (parseTagData (Tag field)) = Some data"
    and "target field fval = (ftype, slot, store)"
  shows "(ftype = TString \<longrightarrow>
            parseField lib rawData field fval =
              (if length data = 1 then (None, store (VString (data ! 0)))
               else if length data = 0 then (Some (Wrapped (OptionNotSet name)), store slot)
               else (Some (Wrapped (OptionMoreThanOnce name)), store slot))) \<and>
         (\<forall>bits. ftype = TInt bits \<longrightarrow>
            parseField lib rawData field fval =
              (if length data = 1 then
                 (case ParseInt lib (data ! 0) 0 bits of
                    Inr n \<Rightarrow> (None, store (VInt n))
                  | Inl e \<Rightarrow> (Some (Wrapped (Strconv e)), store slot))
               else if length data = 0 then (Some (Wrapped (OptionNotSet name)), store slot)
               else (Some (Wrapped (OptionMoreThanOnce name)), store slot))) \<and>
         (\<forall>bits. ftype = TUint bits \<longrightarrow>
            parseField lib rawData field fval =
              (if length data = 1 then
                 (case ParseUint lib (data ! 0) 0 bits of
                    Inr n \<Rightarrow> (None, store (VUint n))
                  | Inl e \<Rightarrow> (Some (Wrapped (Strconv e)), store slot))
               else if length data = 0 then (Some (Wrapped (OptionNotSet name)), store slot)
               else (Some (Wrapped (OptionMoreThanOnce name)), store slot))) \<and>
         (\<forall>bits. ftype = TFloat bits \<longrightarrow>
            parseField lib rawData field fval =
              (if length data = 1 then
                 (case ParseFloat lib (data ! 0) bits of
                    Inr n \<Rightarrow> (None, store (VFloat n))
                  | Inl e \<Rightarrow> (Some (Wrapped (Strconv e)), store slot))
               else if length data = 0 then (Some (Wrapped (OptionNotSet name)), store slot)
               else (Some (Wrapped (OptionMoreThanOnce name)), store slot))) \<and>
         (ftype = TBool \<longrightarrow>
            parseField lib rawData field fval =
              (if length data = 0 then (None, store (VBool True))
               else (Some (BooleanHasParameter name), store slot)))"
proof -
  note pf = parseField_found [OF assms(1,2) assms(4) [unfolded assms(3)] assms(5), folded assms(3)]
  have 1: "ftype = TString \<longrightarrow>
            parseField lib rawData field fval =
              (if length data = 1 then (None, store (VString (data ! 0)))
               else if length data = 0 then (Some (Wrapped (OptionNotSet name)), store slot)
               else (Some (Wrapped (OptionMoreThanOnce name)), store slot))"
    by (simp add: pf assign_def checkArgLen_cases)
  have 2: "\<forall>bits. ftype = TInt bits \<longrightarrow>
            parseField lib rawData field fval =
              (if length data = 1 then
                 (case ParseInt lib (data ! 0) 0 bits of
                    Inr n \<Rightarrow> (None, store (VInt n))
                  | Inl e \<Rightarrow> (Some (Wrapped (Strconv e)), store slot))
               else if length data = 0 then (Some (Wrapped (OptionNotSet name)), store slot)
               else (Some (Wrapped (OptionMoreThanOnce name)), store slot))"
    by (simp add: pf assign_def checkArgLen_cases split: sum.splits)
  have 3: "\<forall>bits. ftype = TUint bits \<longrightarrow>
            parseField lib rawData field fval =
              (if length data = 1 then
                 (case ParseUint lib (data ! 0) 0 bits of
                    Inr n \<Rightarrow> (None, store (VUint n))
                  | Inl e \<Rightarrow> (Some (Wrapped (Strconv e)), store slot))
               else if length data = 0 then (Some (Wrapped (OptionNotSet name)), store slot)
               else (Some (Wrapped (OptionMoreThanOnce name)), store slot))"
    by (simp add: pf assign_def checkArgLen_cases split: sum.splits)
  have 4: "\<forall>bits. ftype = TFloat bits \<longrightarrow>
            parseField lib rawData field fval =
              (if length data = 1 then
                 (case ParseFloat lib (data ! 0) bits of
                    Inr n \<Rightarrow> (None, store (VFloat n))
                  | Inl e \<Rightarrow> (Some (Wrapped (Strconv e)), store slot))
               else if length data = 0 then (Some (Wrapped (OptionNotSet name)), store slot)
               else (Some (Wrapped (OptionMoreThanOnce name)), store slot))"
    by (simp add: pf assign_def checkArgLen_cases split: sum.splits)
  have 5: "ftype = TBool \<longrightarrow>
            parseField lib rawData field fval =
              (if length data = 0 then (None, store (VBool True))
               else (Some (BooleanHasParameter name), store slot))"
    by (simp add: pf assign_def)
  from 1 2 3 4 5 show ?thesis by blast
qed

theorem scalar_and_boolean_cardinality_witness:
  "parseField exampleLib [''name'' \<mapsto> [''bob'']]
     \<lparr>Name = ''Name'', PkgPath = '''', Anonymous = False, Tag = '''', Type = TString\<rparr>
     (VString ''anon'') = (None, VString ''bob'')"
  using scalar_and_boolean_cardinality
    [of "\<lparr>Name = ''Name'', PkgPath = '''', Anonymous = False, Tag = '''', Type = TString\<rparr>"
        "''name''" exampleLib "[''name'' \<mapsto> [''bob'']]" "[''bob'']" "VString ''anon''"
        TString "VString ''anon''" "\<lambda>x. x"]
  by (simp add: lower_Name findData_def target_def)

text \<open>
  Claim C9 as stated (a numeric field is assigned if and only if exactly one raw value was
  collected) fails: the \<open>int64\<close> field \<open>Count\<close> on the tokens \<open>--count abc\<close> has exactly
  one raw value, and parse returns the error of \<open>strconv\<close> and leaves the field at 7.
\<close>

theorem numeric_single_value_not_assigned:
  "rawArgsMap [''--count'', ''abc''] = Some [''count'' \<mapsto> [''abc'']] \<and>
   length [''abc''] = 1 \<and>
   parseStruct exampleLib
     [(\<lparr>Name = ''Count'', PkgPath = '''', Anonymous = False, Tag = '''', Type = TInt 64\<rparr>,
       VInt 7)]
     [''--count'', ''abc''] =
   Some (Some (Wrapped (Strconv ErrSyntax)),
     [(\<lparr>Name = ''Count'', PkgPath = '''', Anonymous = False, Tag = '''', Type = TInt 64\<rparr>,
       VInt 7)])"
proof -
  have "parseField exampleLib [''count'' \<mapsto> [''abc'']]
     \<lparr>Name = ''Count'', PkgPath = '''', Anonymous = False, Tag = '''', Type = TInt 64\<rparr>
     (VInt 7) = (Some (Wrapped (Strconv ErrSyntax)), VInt 7)"
    by (simp add: parseField_def lower_Count no_tag findData_def target_def assign_def
        checkArgLen_def abc_syntax)
  then show ?thesis
    by (simp add: parseStruct_def count_args structLoop_step)
qed

section \<open>Properties of parseMap\<close>

lemma SetMapIndex_Some [simp]: "SetMapIndex (Some m) key x = Inr (Some (m(key \<mapsto> x)))"
  by (simp add: SetMapIndex_def)

lemma interfaceMapLoop_result:
  "distinct (map fst entries) \<Longrightarrow>
   interfaceMapLoop lib entries (Some m) =
     (None, Some (\<lambda>key. case map_of entries key of
                          None \<Rightarrow> m key
                        | Some value \<Rightarrow> Some (dynamicValue lib value)))"
proof (induction entries arbitrary: m)
  case Nil
  show ?case by simp
next
  case (Cons e entries)
  obtain key vals where e: "e = (key, vals)" by (cases e)
  from Cons.prems e have fresh: "map_of entries key = None" and d: "distinct (map fst entries)"
    by (auto simp: map_of_eq_None_iff)
  have "(\<lambda>k. case map_of entries k of
               None \<Rightarrow> (m(key \<mapsto> dynamicValue lib vals)) k
             | Some value \<Rightarrow> Some (dynamicValue lib value)) =
        (\<lambda>k. case map_of ((key, vals) # entries) k of
               None \<Rightarrow> m k
             | Some value \<Rightarrow> Some (dynamicValue lib value))"
    using fresh by (auto intro!: ext split: option.splits)
  with Cons.IH [OF d] e show ?case by simp
qed

lemma stringMapLoop_error:
  assumes "stringMapLoop entries (Some m) = (Some (MapMoreThanOnce key), v')"
    and "distinct (map fst entries)"
  shows "\<exists>vals m' before after.
           entries = before @ (key, vals) # after \<and> 1 < length vals \<and> v' = Some m' \<and>
           m' key = Some (VString (vals ! 0)) \<and>
           (\<forall>e \<in> set before. m' (fst e) = Some (VString (if snd e = [] then '''' else snd e ! 0))) \<and>
           (\<forall>k. k \<notin> fst ` set before \<and> k \<noteq> key \<longrightarrow> m' k = m k)"
  using assms
proof (induction entries arbitrary: m)
  case Nil
  then show ?case by simp
next
  case (Cons e entries)
  obtain k vs where e: "e = (k, vs)" by (cases e)
  let ?m1 = "m(k \<mapsto> VString (if vs = [] then '''' else vs ! 0))"
  show ?case
  proof (cases "1 < length vs")
    case True
    with Cons.prems(1) e have "key = k" and "v' = Some (m(k \<mapsto> VString (vs ! 0)))"
      by (auto split: if_splits)
    moreover have "(k, vs) # entries = [] @ (k, vs) # entries" by simp
    moreover have "(m(k \<mapsto> VString (vs ! 0))) k = Some (VString (vs ! 0))" by simp
    moreover have "\<forall>e \<in> set ([] :: (string \<times> string list) list).
        (m(k \<mapsto> VString (vs ! 0))) (fst e) =
          Some (VString (if snd e = [] then [] else snd e ! 0))"
      by simp
    moreover have "\<forall>k'. k' \<notin> fst ` set ([] :: (string \<times> string list) list) \<and> k' \<noteq> k \<longrightarrow>
        (m(k \<mapsto> VString (vs ! 0))) k' = m k'"
      by simp
    ultimately show ?thesis using True e by blast
  next
    case False
    with Cons.prems(1) e
    have run: "stringMapLoop entries (Some ?m1) = (Some (MapMoreThanOnce key), v')"
      by (auto split: if_splits)
    from Cons.prems(2) e have d: "distinct (map fst entries)" and fresh: "k \<notin> fst ` set entries"
      by auto
    from Cons.IH [OF run d] obtain vals m' before after where
      ent: "entries = before @ (key, vals) # after" and len: "1 < length vals"
      and v': "v' = Some m'" and atkey: "m' key = Some (VString (vals ! 0))"
      and bef: "\<forall>e \<in> set before. m' (fst e) = Some (VString (if snd e = [] then '''' else snd e ! 0))"
      and rest: "\<forall>k. k \<notin> fst ` set before \<and> k \<noteq> key \<longrightarrow> m' k = ?m1 k"
      by blast
    from fresh ent have "k \<notin> fst ` set before" and "k \<noteq> key" by auto
    with rest have atk: "m' k = Some (VString (if vs = [] then '''' else vs ! 0))" by simp
    have "(k, vs) # entries = ((k, vs) # before) @ (key, vals) # after" using ent by simp
    moreover have "\<forall>e \<in> set ((k, vs) # before).
        m' (fst e) = Some (VString (if snd e = [] then '''' else snd e ! 0))"
      using bef atk by simp
    moreover have "\<forall>k'. k' \<notin> fst ` set ((k, vs) # before) \<and> k' \<noteq> key \<longrightarrow> m' k' = m k'"
      using rest by simp
    ultimately show ?thesis using len v' atkey e by blast
  qed
qed

text \<open>
  Claim C8. For a map with dynamic values (\<open>map[string]interface{}\<close>, allocated) and
  every key of the raw map: no raw value gives the marker \<open>struct{}{}\<close>; one raw value
  gives the \<open>int64\<close> that \<open>ParseInt(val, 0, 64)\<close> returns, else the \<open>float64\<close> that
  \<open>ParseFloat(val, 64)\<close> returns, else the string itself; more than one gives the slice of
  all the raw strings; the call returns no error, and the keys that are not in the raw
  map keep what they had. This holds for every order in which \<open>range\<close> visits the raw map.
\<close>

theorem dynamic_dictionary_values:
  assumes "rawArgsMap args = Some rawData" and "rangeOf rawData (order rawData)"
  shows "\<exists>m'. parseMap lib order TInterface (Some m) args = Some (None, Some m') \<and>
           (\<forall>key. rawData key = None \<longrightarrow> m' key = m key) \<and>
           (\<forall>key value. rawData key = Some value \<longrightarrow>
              (length value = 0 \<longrightarrow> m' key = Some VEmptyStruct) \<and>
              (length value = 1 \<longrightarrow>
                 m' key = Some (case ParseInt lib (value ! 0) 0 64 of
                                  Inr n \<Rightarrow> VInt n
                                | Inl e \<Rightarrow>
                                    (case ParseFloat lib (value ! 0) 64 of
                                       Inr x \<Rightarrow> VFloat x
                                     | Inl e' \<Rightarrow> VString (value ! 0)))) \<and>
              (1 < length value \<longrightarrow> m' key = Some (VSlice (map VString value))))"
proof -
  from assms(2) have d: "distinct (map fst (order rawData))"
    and mo: "map_of (order rawData) = rawData"
    by (simp_all add: rangeOf_def)
  let ?m' = "\<lambda>key. case rawData key of
                      None \<Rightarrow> m key
                    | Some value \<Rightarrow> Some (dynamicValue lib value)"
  have "parseMap lib order TInterface (Some m) args = Some (None, Some ?m')"
    using assms(1) interfaceMapLoop_result [OF d, of lib m] mo by (simp add: parseMap_def)
  moreover have "\<forall>key. rawData key = None \<longrightarrow> ?m' key = m key" by simp
  moreover have "\<forall>key value. rawData key = Some value \<longrightarrow>
              (length value = 0 \<longrightarrow> ?m' key = Some VEmptyStruct) \<and>
              (length value = 1 \<longrightarrow>
                 ?m' key = Some (case ParseInt lib (value ! 0) 0 64 of
                                  Inr n \<Rightarrow> VInt n
                                | Inl e \<Rightarrow>
                                    (case ParseFloat lib (value ! 0) 64 of
                                       Inr x \<Rightarrow> VFloat x
                                     | Inl e' \<Rightarrow> VString (value ! 0)))) \<and>
              (1 < length value \<longrightarrow> ?m' key = Some (VSlice (map VString value)))"
    by (auto simp: dynamicValue_def split: sum.splits)
  ultimately show ?thesis by blast
qed

lemma dyn_args:
  "rawArgsMap [''--foo'', ''5'', ''--bar'', ''10.5'', ''--baz''] =
     Some [''foo'' \<mapsto> [''5''], ''bar'' \<mapsto> [''10.5''], ''baz'' \<mapsto> []]"
  by (simp add: rawArgsMap_def rawArgsLoop_step long_flag_body HasPrefix_def munchArgs_def
      valuesAt_def rawArgsLoop_Nil)

theorem dynamic_dictionary_values_witness:
  "\<exists>m'. parseMap exampleLib
           (\<lambda>rawData. [(''baz'', []), (''bar'', [''10.5'']), (''foo'', [''5''])])
           TInterface (Some Map.empty)
           [''--foo'', ''5'', ''--bar'', ''10.5'', ''--baz''] = Some (None, Some m') \<and>
         m' ''foo'' = Some (VInt 5) \<and>
         m' ''bar'' = Some (VFloat (21 / 2)) \<and>
         m' ''baz'' = Some VEmptyStruct \<and>
         m' ''qux'' = None"
proof -
  let ?raw = "[''foo'' \<mapsto> [''5''], ''bar'' \<mapsto> [''10.5''], ''baz'' \<mapsto> []]"
  let ?order = "\<lambda>rawData :: rawmap. [(''baz'', []), (''bar'', [''10.5'']), (''foo'', [''5''])]"
  have r: "rangeOf ?raw (?order ?raw)" by (simp add: rangeOf_def)
  have i: "ParseInt exampleLib ''5'' 0 64 = Inr 5"
    by (simp add: exampleLib_def decimalInt_def isDigit_def)
  have j: "ParseInt exampleLib ''10.5'' 0 64 = Inl ErrSyntax"
    by (simp add: exampleLib_def decimalInt_def isDigit_def)
  have f: "ParseFloat exampleLib ''10.5'' 64 = Inr (21 / 2)"
    by (simp add: exampleLib_def decimalFloat_def isDigit_def)
  from dynamic_dictionary_values [OF dyn_args r, of exampleLib Map.empty]
  obtain m' where m': "parseMap exampleLib ?order TInterface (Some Map.empty)
           [''--foo'', ''5'', ''--bar'', ''10.5'', ''--baz''] = Some (None, Some m')"
    and none: "\<forall>key. ?raw key = None \<longrightarrow> m' key = Map.empty key"
    and some: "\<forall>key value. ?raw key = Some value \<longrightarrow>
              (length value = 0 \<longrightarrow> m' key = Some VEmptyStruct) \<and>
              (length value = 1 \<longrightarrow>
                 m' key = Some (case ParseInt exampleLib (value ! 0) 0 64 of
                                  Inr n \<Rightarrow> VInt n
                                | Inl e \<Rightarrow>
                                    (case ParseFloat exampleLib (value ! 0) 64 of
                                       Inr x \<Rightarrow> VFloat x
                                     | Inl e' \<Rightarrow> VString (value ! 0)))) \<and>
              (1 < length value \<longrightarrow> m' key = Some (VSlice (map VString value)))"
    by blast
  from some [rule_format, of "''foo''" "[''5'']"] i have 1: "m' ''foo'' = Some (VInt 5)" by simp
  from some [rule_format, of "''bar''" "[''10.5'']"] j f
  have 2: "m' ''bar'' = Some (VFloat (21 / 2))" by simp
  from some [rule_format, of "''baz''" "[]"] have 3: "m' ''baz'' = Some VEmptyStruct" by simp
  from none [rule_format, of "''qux''"] have 4: "m' ''qux'' = None" by simp
  from m' 1 2 3 4 show ?thesis by blast
qed

text \<open>
  Claim C10. When \<open>parseMap\<close> on a map with string values returns "specified more than
  once" for a key, the map has been written to: the key holds its first raw value, every
  key that \<open>range\<close> visited before it holds its own first raw value (or the empty string),
  and the other keys are as they were.
\<close>

theorem string_dictionary_error_after_assignment:
  assumes "rawArgsMap args = Some rawData" and "rangeOf rawData (order rawData)"
    and "parseMap lib order TString (Some m) args = Some (Some (MapMoreThanOnce key), v')"
  shows "\<exists>vals m' before after.
           rawData key = Some vals \<and> 1 < length vals \<and> v' = Some m' \<and>
           m' key = Some (VString (vals ! 0)) \<and>
           (m key \<noteq> Some (VString (vals ! 0)) \<longrightarrow> m' \<noteq> m) \<and>
           order rawData = before @ (key, vals) # after \<and>
           (\<forall>e \<in> set before. m' (fst e) = Some (VString (if snd e = [] then '''' else snd e ! 0))) \<and>
           (\<forall>k. k \<notin> fst ` set before \<and> k \<noteq> key \<longrightarrow> m' k = m k)"
proof -
  from assms(2) have d: "distinct (map fst (order rawData))"
    and mo: "map_of (order rawData) = rawData"
    by (simp_all add: rangeOf_def)
  from assms(1,3) have "stringMapLoop (order rawData) (Some m) = (Some (MapMoreThanOnce key), v')"
    by (simp add: parseMap_def)
  from stringMapLoop_error [OF this d] obtain vals m' before after where
    ent: "order rawData = before @ (key, vals) # after" and len: "1 < length vals"
    and v': "v' = Some m'" and atkey: "m' key = Some (VString (vals ! 0))"
    and bef: "\<forall>e \<in> set before. m' (fst e) = Some (VString (if snd e = [] then '''' else snd e ! 0))"
    and rest: "\<forall>k. k \<notin> fst ` set before \<and> k \<noteq> key \<longrightarrow> m' k = m k"
    by blast
  from d ent have "map_of (order rawData) key = Some vals"
    by (intro map_of_is_SomeI) auto
  with mo have "rawData key = Some vals" by simp
  moreover from atkey have "m key \<noteq> Some (VString (vals ! 0)) \<longrightarrow> m' \<noteq> m" by auto
  ultimately show ?thesis using ent len v' atkey bef rest by blast
qed

lemma twice_args:
  "rawArgsMap [''--foo'', ''a'', ''b'', ''--bar'', ''x''] =
     Some [''foo'' \<mapsto> [''a'', ''b''], ''bar'' \<mapsto> [''x'']]"
  by (simp add: rawArgsMap_def rawArgsLoop_step long_flag_body HasPrefix_def munchArgs_def
      valuesAt_def rawArgsLoop_Nil)

theorem string_dictionary_error_after_assignment_witness:
  "\<exists>m'. parseMap exampleLib (\<lambda>rawData. [(''bar'', [''x'']), (''foo'', [''a'', ''b''])])
           TString (Some Map.empty) [''--foo'', ''a'', ''b'', ''--bar'', ''x''] =
         Some (Some (MapMoreThanOnce ''foo''), Some m') \<and>
         m' ''foo'' = Some (VString ''a'') \<and> m' ''bar'' = Some (VString ''x'') \<and>
         m' \<noteq> Map.empty"
proof -
  let ?raw = "[''foo'' \<mapsto> [''a'', ''b''], ''bar'' \<mapsto> [''x'']]"
  let ?order = "\<lambda>rawData :: rawmap. [(''bar'', [''x'']), (''foo'', [''a'', ''b''])]"
  let ?m = "[''bar'' \<mapsto> VString ''x'', ''foo'' \<mapsto> VString ''a''] :: string \<rightharpoonup> rat val"
  have r: "rangeOf ?raw (?order ?raw)" by (simp add: rangeOf_def)
  have run: "parseMap exampleLib ?order TString (Some Map.empty)
      [''--foo'', ''a'', ''b'', ''--bar'', ''x''] = Some (Some (MapMoreThanOnce ''foo''), Some ?m)"
    by (simp add: parseMap_def twice_args)
  from string_dictionary_error_after_assignment [OF twice_args r run]
  have "?m ''foo'' = Some (VString ''a'')" and "?m \<noteq> Map.empty" by auto
  moreover have "?m ''bar'' = Some (VString ''x'')" by simp
  ultimately show ?thesis using run by blast
qed

end
